theory Spec2Isabelle
  imports Main "HOL-Library.Word"
begin

unbundle bit_operations_syntax

section \<open>Strings, bytes and the string methods the code calls\<close>

text \<open>
  A TypeScript string is a sequence of UTF-16 code units, a Buffer or Uint8Array a sequence
  of bytes. \<open>js\<close> writes an ASCII literal as such a string.
\<close>

type_synonym jschar = "16 word"
type_synonym jsstring = "jschar list"
type_synonym byte = "8 word"

definition js :: "string \<Rightarrow> jsstring" where
  "js s = map of_char s"

abbreviation (input) EQUALS :: jschar where "EQUALS \<equiv> 0x3D"
abbreviation (input) NEWLINE :: jschar where "NEWLINE \<equiv> 0x0A"
abbreviation (input) LBRACE :: jschar where "LBRACE \<equiv> 0x7B"
abbreviation (input) RBRACE :: jschar where "RBRACE \<equiv> 0x7D"
abbreviation (input) DQUOTE :: jschar where "DQUOTE \<equiv> 0x22"
abbreviation (input) BACKSLASH :: jschar where "BACKSLASH \<equiv> 0x5C"
abbreviation (input) COLON :: jschar where "COLON \<equiv> 0x3A"
abbreviation (input) COMMA :: jschar where "COMMA \<equiv> 0x2C"

text \<open>
  \<open>String.prototype.trim\<close> removes ECMAScript WhiteSpace and LineTerminator code units
  from both ends.
\<close>

definition isWhiteSpace :: "jschar \<Rightarrow> bool" where
  "isWhiteSpace c \<longleftrightarrow>
     c = 0x09 \<or> c = 0x0A \<or> c = 0x0B \<or> c = 0x0C \<or> c = 0x0D \<or> c = 0x20 \<or> c = 0xA0
     \<or> c = 0x1680 \<or> (0x2000 \<le> c \<and> c \<le> 0x200A) \<or> c = 0x2028 \<or> c = 0x2029
     \<or> c = 0x202F \<or> c = 0x205F \<or> c = 0x3000 \<or> c = 0xFEFF"

definition trim :: "jsstring \<Rightarrow> jsstring" where
  "trim s = rev (dropWhile isWhiteSpace (rev (dropWhile isWhiteSpace s)))"

definition startsWith :: "jsstring \<Rightarrow> jsstring \<Rightarrow> bool" where
  "startsWith s p \<longleftrightarrow> take (length p) s = p"

definition endsWith :: "jsstring \<Rightarrow> jsstring \<Rightarrow> bool" where
  "endsWith s p \<longleftrightarrow> length p \<le> length s \<and> drop (length s - length p) s = p"

definition includesChar :: "jsstring \<Rightarrow> jschar \<Rightarrow> bool" where
  "includesChar s c \<longleftrightarrow> c \<in> set s"

text \<open>\<open>s.split(c)\<close> and \<open>parts.join(c)\<close> for a separator of one code unit.\<close>

fun split :: "jschar \<Rightarrow> jsstring \<Rightarrow> jsstring list" where
  "split c [] = [[]]"
| "split c (x # xs) =
     (if x = c then [] # split c xs
      else (case split c xs of [] \<Rightarrow> [[x]] | p # ps \<Rightarrow> (x # p) # ps))"

fun join :: "jschar \<Rightarrow> jsstring list \<Rightarrow> jsstring" where
  "join c [] = []"
| "join c [p] = p"
| "join c (p # q # ps) = p @ c # join c (q # ps)"

section \<open>Objects used as string-keyed records\<close>

text \<open>
  A \<open>Record<string, string>\<close> is an ordinary object. Its own properties are kept in the
  order \<open>Object.entries\<close> lists them: array-index keys first, ascending, then the other
  keys in the order of their creation. A property read that finds no own property falls
  through to \<open>Object.prototype\<close>, whose members are objects or functions, not strings;
  assigning to \<open>__proto__\<close> creates no property.
\<close>

datatype jsval = Str jsstring | Inherited

type_synonym jsrecord = "(jsstring \<times> jsval) list"

definition truthy :: "jsval \<Rightarrow> bool" where
  "truthy v = (case v of Str s \<Rightarrow> s \<noteq> [] | Inherited \<Rightarrow> True)"

definition isDigit :: "jschar \<Rightarrow> bool" where
  "isDigit c \<longleftrightarrow> 0x30 \<le> c \<and> c \<le> 0x39"

definition digitsValue :: "jsstring \<Rightarrow> int" where
  "digitsValue s = foldl (\<lambda>n c. 10 * n + (uint c - 48)) 0 s"

definition isArrayIndex :: "jsstring \<Rightarrow> bool" where
  "isArrayIndex k \<longleftrightarrow>
     k \<noteq> [] \<and> list_all isDigit k \<and> (k = [0x30] \<or> hd k \<noteq> 0x30)
     \<and> digitsValue k < 4294967295"

definition objectPrototypeNames :: "jsstring list" where
  "objectPrototypeNames =
     [js ''constructor'', js ''__defineGetter__'', js ''__defineSetter__'',
      js ''hasOwnProperty'', js ''__lookupGetter__'', js ''__lookupSetter__'',
      js ''isPrototypeOf'', js ''propertyIsEnumerable'', js ''toString'', js ''valueOf'',
      js ''__proto__'', js ''toLocaleString'']"

definition getProperty :: "jsrecord \<Rightarrow> jsstring \<Rightarrow> jsval option" where
  "getProperty r k =
     (case map_of r k of
        Some v \<Rightarrow> Some v
      | None \<Rightarrow> if k \<in> set objectPrototypeNames then Some Inherited else None)"

text \<open>
  Array-index keys are decimal numerals without leading zeros, so their numeric order is
  the order by length and then by code units.
\<close>

fun lexLess :: "jsstring \<Rightarrow> jsstring \<Rightarrow> bool" where
  "lexLess (x # xs) (y # ys) = (x < y \<or> (x = y \<and> lexLess xs ys))"
| "lexLess _ _ = False"

definition indexBefore :: "jsstring \<Rightarrow> jsstring \<Rightarrow> bool" where
  "indexBefore k' k \<longleftrightarrow> length k' < length k \<or> (length k' = length k \<and> lexLess k' k)"

fun insertProperty :: "jsstring \<Rightarrow> jsval \<Rightarrow> jsrecord \<Rightarrow> jsrecord" where
  "insertProperty k v [] = [(k, v)]"
| "insertProperty k v ((k', v') # r) =
     (if isArrayIndex k' \<and> (\<not> isArrayIndex k \<or> indexBefore k' k)
      then (k', v') # insertProperty k v r
      else if isArrayIndex k then (k, v) # (k', v') # r
      else (k', v') # insertProperty k v r)"

definition setProperty :: "jsrecord \<Rightarrow> jsstring \<Rightarrow> jsval \<Rightarrow> jsrecord" where
  "setProperty r k v =
     (if k = js ''__proto__'' then r
      else if k \<in> fst ` set r then map (\<lambda>(k', v'). if k' = k then (k', v) else (k', v')) r
      else insertProperty k v r)"

text \<open>\<open>Object.assign(target, source)\<close> sets each own property of the source in turn.\<close>

definition objectAssign :: "jsrecord \<Rightarrow> jsrecord \<Rightarrow> jsrecord" where
  "objectAssign target source = foldl (\<lambda>t (k, v). setProperty t k v) target source"

section \<open>Parsing and updating the lines of an environment file\<close>

definition parseEnvironmentLine :: "jsstring \<Rightarrow> (jsstring \<times> jsstring) option" where
  "parseEnvironmentLine line =
     (let trimmedLine = trim line in
      if trimmedLine = [] \<or> \<not> includesChar trimmedLine EQUALS then None
      else
        let parts = split EQUALS trimmedLine;
            key = hd parts;
            value = join EQUALS (tl parts)
        in if key \<noteq> [] \<and> value \<noteq> [] then Some (trim key, trim value) else None)"

definition extractEnvironmentVariables :: "jsstring list \<Rightarrow> jsrecord" where
  "extractEnvironmentVariables lines =
     foldl (\<lambda>variables line.
              case parseEnvironmentLine line of
                None \<Rightarrow> variables
              | Some (key, value) \<Rightarrow> setProperty variables key (Str value))
       [] lines"

definition updateEnvironmentLines :: "jsstring list \<Rightarrow> jsstring \<Rightarrow> jsstring \<Rightarrow> jsstring list" where
  "updateEnvironmentLines existingLines envVariable value =
     (let isUpdated = (\<exists>line \<in> set existingLines. startsWith line (envVariable @ [EQUALS]));
          updatedLines =
            map (\<lambda>line. if startsWith line (envVariable @ [EQUALS])
                         then envVariable @ [EQUALS] @ value else line)
              existingLines
      in if \<not> isUpdated then updatedLines @ [envVariable @ [EQUALS] @ value]
         else updatedLines)"

section \<open>The UTF-8 text codec\<close>

text \<open>
  \<open>new TextEncoder().encode(s)\<close> reads the string as Unicode scalar values, an unpaired
  surrogate becoming U+FFFD, and writes them in UTF-8. \<open>new TextDecoder().decode(b)\<close> is the
  UTF-8 decoder of the Encoding standard in replacement mode; with the default
  \<open>ignoreBOM = false\<close> a leading U+FEFF is dropped from the output.
\<close>

definition isHighSurrogate :: "jschar \<Rightarrow> bool" where
  "isHighSurrogate c \<longleftrightarrow> 0xD800 \<le> c \<and> c \<le> 0xDBFF"

definition isLowSurrogate :: "jschar \<Rightarrow> bool" where
  "isLowSurrogate c \<longleftrightarrow> 0xDC00 \<le> c \<and> c \<le> 0xDFFF"

fun scalarValues :: "jsstring \<Rightarrow> 32 word list" where
  "scalarValues [] = []"
| "scalarValues (c # cs) =
     (if isHighSurrogate c then
        (case cs of
           [] \<Rightarrow> [0xFFFD]
         | d # ds \<Rightarrow>
             if isLowSurrogate d
             then (0x10000 + push_bit 10 (ucast (c - 0xD800)) + ucast (d - 0xDC00)) # scalarValues ds
             else 0xFFFD # scalarValues cs)
      else if isLowSurrogate c then 0xFFFD # scalarValues cs
      else ucast c # scalarValues cs)"

definition utf8Bytes :: "32 word \<Rightarrow> byte list" where
  "utf8Bytes cp =
     (if cp < 0x80 then [ucast cp]
      else if cp < 0x800 then
        [0xC0 OR ucast (drop_bit 6 cp), 0x80 OR ucast (cp AND 0x3F)]
      else if cp < 0x10000 then
        [0xE0 OR ucast (drop_bit 12 cp), 0x80 OR ucast (drop_bit 6 cp AND 0x3F),
         0x80 OR ucast (cp AND 0x3F)]
      else
        [0xF0 OR ucast (drop_bit 18 cp), 0x80 OR ucast (drop_bit 12 cp AND 0x3F),
         0x80 OR ucast (drop_bit 6 cp AND 0x3F), 0x80 OR ucast (cp AND 0x3F)])"

definition textEncode :: "jsstring \<Rightarrow> byte list" where
  "textEncode s = concat (map utf8Bytes (scalarValues s))"

text \<open>
  The decoder's state: how many continuation bytes are still needed, the code point
  collected so far, and the bounds the next continuation byte must meet. A byte that is not
  the expected continuation ends the sequence with U+FFFD and is read again as a first byte.
\<close>

function utf8Decode :: "nat \<Rightarrow> 32 word \<Rightarrow> byte \<Rightarrow> byte \<Rightarrow> byte list \<Rightarrow> 32 word list" where
  "utf8Decode needed cp lower upper [] = (if needed \<noteq> 0 then [0xFFFD] else [])"
| "utf8Decode needed cp lower upper (b # bs) =
     (if needed = 0 then
        (if b \<le> 0x7F then ucast b # utf8Decode 0 0 0x80 0xBF bs
         else if 0xC2 \<le> b \<and> b \<le> 0xDF then utf8Decode 1 (ucast (b AND 0x1F)) 0x80 0xBF bs
         else if 0xE0 \<le> b \<and> b \<le> 0xEF then
           utf8Decode 2 (ucast (b AND 0xF)) (if b = 0xE0 then 0xA0 else 0x80)
             (if b = 0xED then 0x9F else 0xBF) bs
         else if 0xF0 \<le> b \<and> b \<le> 0xF4 then
           utf8Decode 3 (ucast (b AND 0x7)) (if b = 0xF0 then 0x90 else 0x80)
             (if b = 0xF4 then 0x8F else 0xBF) bs
         else 0xFFFD # utf8Decode 0 0 0x80 0xBF bs)
      else if \<not> (lower \<le> b \<and> b \<le> upper) then 0xFFFD # utf8Decode 0 0 0x80 0xBF (b # bs)
      else if needed = 1 then (push_bit 6 cp OR ucast (b AND 0x3F)) # utf8Decode 0 0 0x80 0xBF bs
      else utf8Decode (needed - 1) (push_bit 6 cp OR ucast (b AND 0x3F)) 0x80 0xBF bs)"
  by pat_completeness auto
termination
  by (relation "measure (\<lambda>(needed, cp, lower, upper, bs). 2 * length bs + (if needed = 0 then 0 else 1))")
    auto

definition utf16Units :: "32 word \<Rightarrow> jsstring" where
  "utf16Units cp =
     (if cp < 0x10000 then [ucast cp]
      else [0xD800 + ucast (drop_bit 10 (cp - 0x10000)), 0xDC00 + ucast ((cp - 0x10000) AND 0x3FF)])"

definition dropBOM :: "32 word list \<Rightarrow> 32 word list" where
  "dropBOM cps = (case cps of [] \<Rightarrow> [] | cp # rest \<Rightarrow> if cp = 0xFEFF then rest else cps)"

definition textDecode :: "byte list \<Rightarrow> jsstring" where
  "textDecode bs = concat (map utf16Units (dropBOM (utf8Decode 0 0 0x80 0xBF bs)))"

section \<open>JSON values and \<open>JSON.stringify\<close>\<close>

text \<open>
  What \<open>JSON.parse\<close> returns. Of a number only whether it is zero is kept (zero is the one
  falsy number \<open>JSON.parse\<close> can return); the code reads nothing else of it.
\<close>

datatype json =
    JNull
  | JBool bool
  | JNumber (isZero: bool)
  | JString jsstring
  | JArray "json list"
  | JObject "(jsstring \<times> json) list"

record encryptionParameters =
  salt :: jsstring
  iv :: jsstring
  cipherText :: jsstring

text \<open>\<open>encryptIfNeeded\<close> returns the string it was given or a fresh parameter object.\<close>

datatype encryptedValue = Unchanged jsstring | Encrypted encryptionParameters

definition hexDigit :: "jschar \<Rightarrow> jschar" where
  "hexDigit n = (if n < 10 then 0x30 + n else 0x57 + n)"

definition unicodeEscape :: "jschar \<Rightarrow> jsstring" where
  "unicodeEscape c =
     [BACKSLASH, 0x75, hexDigit (drop_bit 12 c), hexDigit (drop_bit 8 c AND 0xF),
      hexDigit (drop_bit 4 c AND 0xF), hexDigit (c AND 0xF)]"

fun quoteChars :: "jsstring \<Rightarrow> jsstring" where
  "quoteChars [] = []"
| "quoteChars (c # cs) =
     (if c = 0x08 then [BACKSLASH, 0x62] @ quoteChars cs
      else if c = 0x09 then [BACKSLASH, 0x74] @ quoteChars cs
      else if c = 0x0A then [BACKSLASH, 0x6E] @ quoteChars cs
      else if c = 0x0C then [BACKSLASH, 0x66] @ quoteChars cs
      else if c = 0x0D then [BACKSLASH, 0x72] @ quoteChars cs
      else if c = DQUOTE then [BACKSLASH, DQUOTE] @ quoteChars cs
      else if c = BACKSLASH then [BACKSLASH, BACKSLASH] @ quoteChars cs
      else if c < 0x20 then unicodeEscape c @ quoteChars cs
      else if isHighSurrogate c then
        (case cs of
           [] \<Rightarrow> unicodeEscape c
         | d # ds \<Rightarrow>
             if isLowSurrogate d then c # d # quoteChars ds
             else unicodeEscape c @ quoteChars cs)
      else if isLowSurrogate c then unicodeEscape c @ quoteChars cs
      else c # quoteChars cs)"

definition quoteJSONString :: "jsstring \<Rightarrow> jsstring" where
  "quoteJSONString s = DQUOTE # quoteChars s @ [DQUOTE]"

definition JSON_stringify :: "encryptedValue \<Rightarrow> jsstring" where
  "JSON_stringify x =
     (case x of
        Unchanged s \<Rightarrow> quoteJSONString s
      | Encrypted p \<Rightarrow>
          [LBRACE] @ quoteJSONString (js ''salt'') @ [COLON] @ quoteJSONString (salt p)
          @ [COMMA] @ quoteJSONString (js ''iv'') @ [COLON] @ quoteJSONString (iv p)
          @ [COMMA] @ quoteJSONString (js ''cipherText'') @ [COLON]
          @ quoteJSONString (cipherText p) @ [RBRACE])"

definition paramsJSON :: "encryptionParameters \<Rightarrow> json" where
  "paramsJSON p =
     JObject [(js ''salt'', JString (salt p)), (js ''iv'', JString (iv p)),
              (js ''cipherText'', JString (cipherText p))]"

section \<open>Errors, the log, and what the code takes from outside\<close>

text \<open>
  Every \<open>throw\<close> of the sources and every exception of a library call is a value of
  \<open>error\<close>; a function that can throw returns \<open>error + 'a\<close> together with the world it
  leaves behind.
\<close>

datatype error =
    IvLengthNotPositive
  | SaltLengthNotPositive
  | EncryptedDataRequired
  | MissingRequiredProperties
  | NoContentProvided
  | PathRequired
  | PathEndsWithSeparator
  | NoSuchFile
  | TypeError
  | SyntaxError
  | RangeError
  | LibraryError nat

text \<open>
  The logger and \<open>ErrorHandler\<close> are not among the sources. A logger call is recorded as an
  entry of the log, one constructor for each message of the code; \<open>captureError\<close> is taken
  to record the error and return, \<open>logAndThrow\<close> to record the message and throw, as their
  call sites presuppose.
\<close>

datatype logEvent =
    WarnLookupNotFound jsstring
  | InfoKeyFound jsstring
  | InfoSkippingEncryption jsstring
  | WarnNullOrEmpty
  | ErrorParsing error
  | InfoEncryptionComplete nat
  | WarnNoContent jsstring
  | InfoKeyWritten jsstring
  | InfoKeyAlreadyExists jsstring
  | InfoKeyAdded jsstring
  | Captured string error
  | LoggedAndThrown string error

text \<open>
  The constants of \<open>CRYPTO_CONFIG\<close> (their declaration is not among the sources) and the
  library functions the code calls: Node's \<open>crypto\<close> and \<open>Buffer\<close>, \<open>argon2\<close>,
  \<open>JSON.parse\<close> and the regular-expression engine. Each is a parameter of the model; a
  random draw is a function of the number of draws made before it.
\<close>

record platform =
  IV_LENGTH :: int
  WEB_CRYPTO_IV_LENGTH :: int
  SALT_LENGTH :: int
  SECRET_KEY_LENGTH :: int
  randomBytes :: "nat \<Rightarrow> int \<Rightarrow> error + byte list"
  getRandomValues :: "nat \<Rightarrow> int \<Rightarrow> error + byte list"
  webCryptoAvailable :: bool
  base64Encode :: "byte list \<Rightarrow> jsstring"
  bufferFromBase64 :: "json \<Rightarrow> error + byte list"
  argon2Hash :: "jsstring \<Rightarrow> byte list \<Rightarrow> error + byte list"
  importKey :: "byte list \<Rightarrow> error + byte list"
  aesGcmEncrypt :: "byte list \<Rightarrow> byte list \<Rightarrow> byte list \<Rightarrow> error + byte list"
  aesGcmDecrypt :: "byte list \<Rightarrow> byte list \<Rightarrow> byte list \<Rightarrow> error + byte list"
  jsonParse :: "jsstring \<Rightarrow> error + json"
  regExpTestMultiline :: "jsstring \<Rightarrow> jsstring \<Rightarrow> error + bool"

text \<open>
  The world: the text of each file by path, the writes made so far, the log, and the number
  of random draws made.
\<close>

record world =
  files :: "jsstring \<Rightarrow> jsstring option"
  writes :: "(jsstring \<times> jsstring) list"
  logged :: "logEvent list"
  randomDraws :: nat

type_synonym 'a action = "world \<Rightarrow> (error + 'a) \<times> world"

definition ok :: "'a \<Rightarrow> 'a action" where
  "ok x w = (Inr x, w)"

definition throw :: "error \<Rightarrow> 'a action" where
  "throw e w = (Inl e, w)"

definition andThen :: "'a action \<Rightarrow> ('a \<Rightarrow> 'b action) \<Rightarrow> 'b action" where
  "andThen m f w = (case m w of (Inl e, w') \<Rightarrow> (Inl e, w') | (Inr x, w') \<Rightarrow> f x w')"

definition library :: "error + 'a \<Rightarrow> 'a action" where
  "library r w = (r, w)"

definition logger :: "logEvent \<Rightarrow> unit action" where
  "logger ev w = (Inr (), w\<lparr>logged := logged w @ [ev]\<rparr>)"

text \<open>\<open>try { m } catch (error) { ErrorHandler.captureError(error, source, ...); throw error; }\<close>\<close>

definition captureError :: "string \<Rightarrow> 'a action \<Rightarrow> 'a action" where
  "captureError source m w =
     (case m w of
        (Inl e, w') \<Rightarrow> (Inl e, w'\<lparr>logged := logged w' @ [Captured source e]\<rparr>)
      | (Inr x, w') \<Rightarrow> (Inr x, w'))"

definition logAndThrow :: "error \<Rightarrow> string \<Rightarrow> 'a action" where
  "logAndThrow e source w = (Inl e, w\<lparr>logged := logged w @ [LoggedAndThrown source e]\<rparr>)"

fun forEach :: "('a \<Rightarrow> 's \<Rightarrow> 's action) \<Rightarrow> 'a list \<Rightarrow> 's \<Rightarrow> 's action" where
  "forEach f [] s w = (Inr s, w)"
| "forEach f (x # xs) s w =
     (case f x s w of (Inl e, w') \<Rightarrow> (Inl e, w') | (Inr s', w') \<Rightarrow> forEach f xs s' w')"

section \<open>SecureKeyGenerator\<close>

definition cryptoRandomBytes :: "platform \<Rightarrow> int \<Rightarrow> byte list action" where
  "cryptoRandomBytes P n w =
     (randomBytes P (randomDraws w) n, w\<lparr>randomDraws := Suc (randomDraws w)\<rparr>)"

definition cryptoGetRandomValues :: "platform \<Rightarrow> int \<Rightarrow> byte list action" where
  "cryptoGetRandomValues P n w =
     (getRandomValues P (randomDraws w) n, w\<lparr>randomDraws := Suc (randomDraws w)\<rparr>)"

text \<open>An omitted length argument (\<open>None\<close>) takes the configured default.\<close>

definition generateBase64IV :: "platform \<Rightarrow> int option \<Rightarrow> jsstring action" where
  "generateBase64IV P len =
     (let length = (case len of None \<Rightarrow> IV_LENGTH P | Some n \<Rightarrow> n) in
      if length \<le> 0 then throw IvLengthNotPositive
      else captureError ''generateBase64IV''
             (andThen (cryptoRandomBytes P length) (\<lambda>bytes. ok (base64Encode P bytes))))"

definition generateBufferIV :: "platform \<Rightarrow> int option \<Rightarrow> byte list action" where
  "generateBufferIV P len =
     (let length = (case len of None \<Rightarrow> IV_LENGTH P | Some n \<Rightarrow> n) in
      if length \<le> 0 then throw IvLengthNotPositive
      else captureError ''generateBufferIV'' (cryptoRandomBytes P length))"

definition generateWebCryptoIV :: "platform \<Rightarrow> int option \<Rightarrow> byte list action" where
  "generateWebCryptoIV P len =
     (let length = (case len of None \<Rightarrow> WEB_CRYPTO_IV_LENGTH P | Some n \<Rightarrow> n) in
      if length \<le> 0 then throw IvLengthNotPositive
      else captureError ''generateWebCryptoIV''
             (if webCryptoAvailable P then cryptoGetRandomValues P length
              else cryptoRandomBytes P length))"

definition generateBase64Salt :: "platform \<Rightarrow> int option \<Rightarrow> jsstring action" where
  "generateBase64Salt P len =
     (let length = (case len of None \<Rightarrow> SALT_LENGTH P | Some n \<Rightarrow> n) in
      if length \<le> 0 then throw SaltLengthNotPositive
      else captureError ''generateBase64Salt''
             (andThen (cryptoRandomBytes P length) (\<lambda>bytes. ok (base64Encode P bytes))))"

definition generateBase64SecretKey :: "platform \<Rightarrow> int option \<Rightarrow> jsstring action" where
  "generateBase64SecretKey P len =
     (let length = (case len of None \<Rightarrow> SECRET_KEY_LENGTH P | Some n \<Rightarrow> n) in
      captureError ''generateBase64SecretKey''
        (andThen (cryptoRandomBytes P length) (\<lambda>bytes. ok (base64Encode P bytes))))"

section \<open>EncryptionService\<close>

definition argon2Hashing :: "platform \<Rightarrow> jsstring \<Rightarrow> byte list \<Rightarrow> byte list action" where
  "argon2Hashing P secretKey saltBytes =
     captureError ''argon2Hashing'' (library (argon2Hash P secretKey saltBytes))"

definition importKeyForCrypto :: "platform \<Rightarrow> byte list \<Rightarrow> byte list action" where
  "importKeyForCrypto P keyBuffer =
     captureError ''importKeyForCrypto'' (library (importKey P keyBuffer))"

text \<open>
  The salt reaches \<open>Buffer.from(salt, 'base64')\<close> as \<open>encrypt\<close> made it or as
  \<open>JSON.parse\<close> returned it; \<open>None\<close> is \<open>undefined\<close>, which \<open>Buffer.from\<close> rejects.
\<close>

definition bufferFrom :: "platform \<Rightarrow> json option \<Rightarrow> byte list action" where
  "bufferFrom P x = (case x of None \<Rightarrow> throw TypeError | Some j \<Rightarrow> library (bufferFromBase64 P j))"

definition deriveKeyWithArgon2 :: "platform \<Rightarrow> jsstring \<Rightarrow> json option \<Rightarrow> byte list action" where
  "deriveKeyWithArgon2 P secretKey saltValue =
     captureError ''deriveKeyWithArgon2''
       (andThen (bufferFrom P saltValue) (\<lambda>saltBytes.
        andThen (argon2Hashing P secretKey saltBytes) (\<lambda>keyBuffer.
        importKeyForCrypto P keyBuffer)))"

definition encryptBuffer :: "platform \<Rightarrow> byte list \<Rightarrow> byte list \<Rightarrow> jsstring \<Rightarrow> byte list action" where
  "encryptBuffer P webCryptoIv key value =
     captureError ''encrypt'' (library (aesGcmEncrypt P key webCryptoIv (textEncode value)))"

definition encrypt :: "platform \<Rightarrow> jsstring \<Rightarrow> jsstring \<Rightarrow> encryptionParameters action" where
  "encrypt P value secretKey =
     captureError ''encrypt''
       (andThen (generateBase64Salt P None) (\<lambda>saltText.
        andThen (generateWebCryptoIV P None) (\<lambda>webCryptoIv.
        andThen (deriveKeyWithArgon2 P secretKey (Some (JString saltText))) (\<lambda>key.
        andThen (encryptBuffer P webCryptoIv key value) (\<lambda>encryptedBuffer.
        ok \<lparr>salt = saltText, iv = base64Encode P webCryptoIv,
            cipherText = base64Encode P encryptedBuffer\<rparr>)))))"

text \<open>
  Property reads on what \<open>JSON.parse\<close> returned: \<open>params.salt\<close> is \<open>undefined\<close> (\<open>None\<close>)
  unless the value is an object with that key; destructuring \<open>null\<close> throws.
\<close>

definition jsonField :: "json \<Rightarrow> jsstring \<Rightarrow> json option" where
  "jsonField j name = (case j of JObject members \<Rightarrow> map_of members name | _ \<Rightarrow> None)"

definition jsonTruthy :: "json option \<Rightarrow> bool" where
  "jsonTruthy x =
     (case x of
        None \<Rightarrow> False
      | Some JNull \<Rightarrow> False
      | Some (JBool b) \<Rightarrow> b
      | Some (JNumber z) \<Rightarrow> \<not> z
      | Some (JString s) \<Rightarrow> s \<noteq> []
      | Some (JArray _) \<Rightarrow> True
      | Some (JObject _) \<Rightarrow> True)"

definition validateParsedData :: "json \<Rightarrow> unit action" where
  "validateParsedData params =
     captureError ''validateParsedData''
       (if params = JNull then throw TypeError
        else if \<not> jsonTruthy (jsonField params (js ''salt''))
                \<or> \<not> jsonTruthy (jsonField params (js ''iv''))
                \<or> \<not> jsonTruthy (jsonField params (js ''cipherText''))
        then logAndThrow MissingRequiredProperties ''validateParsedData''
        else ok ())"

definition parseEncryptedData :: "platform \<Rightarrow> jsstring \<Rightarrow> json action" where
  "parseEncryptedData P encryptedData =
     captureError ''parseEncryptedData''
       (if encryptedData = [] then logAndThrow EncryptedDataRequired ''parseEncryptedData''
        else andThen (library (jsonParse P encryptedData)) (\<lambda>parsedData.
             andThen (validateParsedData parsedData) (\<lambda>_. ok parsedData)))"

definition decryptBuffer :: "platform \<Rightarrow> byte list \<Rightarrow> byte list \<Rightarrow> byte list \<Rightarrow> byte list action" where
  "decryptBuffer P ivBuffer key cipherBuffer =
     captureError ''decrypt'' (library (aesGcmDecrypt P key ivBuffer cipherBuffer))"

definition decrypt :: "platform \<Rightarrow> jsstring \<Rightarrow> jsstring \<Rightarrow> jsstring action" where
  "decrypt P encryptedData secretKey =
     captureError ''decrypt''
       (andThen (parseEncryptedData P encryptedData) (\<lambda>parsedData.
        andThen (deriveKeyWithArgon2 P secretKey (jsonField parsedData (js ''salt''))) (\<lambda>key.
        andThen (bufferFrom P (jsonField parsedData (js ''iv''))) (\<lambda>ivBuffer.
        andThen (bufferFrom P (jsonField parsedData (js ''cipherText''))) (\<lambda>cipherBuffer.
        andThen (decryptBuffer P ivBuffer key cipherBuffer) (\<lambda>decryptedBuffer.
        ok (textDecode decryptedBuffer)))))))"

section \<open>FileManager and EnvironmentFileManager\<close>

record environmentFileManager =
  environmentFilePath :: jsstring
  secretKeyVariable :: jsstring
  baseEnvironmentFilePath :: jsstring

definition validatePath :: "jsstring \<Rightarrow> string \<Rightarrow> unit action" where
  "validatePath filePath paramName =
     (if filePath = [] then logAndThrow PathRequired ''validatePath''
      else if paramName = ''filePath'' \<and> (endsWith filePath [0x2F] \<or> endsWith filePath [BACKSLASH])
      then logAndThrow PathEndsWithSeparator ''validatePath''
      else ok ())"

definition fsWriteFile :: "jsstring \<Rightarrow> jsstring \<Rightarrow> unit action" where
  "fsWriteFile filePath content w =
     (Inr (), w\<lparr>files := (files w)(filePath \<mapsto> content),
                writes := writes w @ [(filePath, content)]\<rparr>)"

definition fsReadFile :: "jsstring \<Rightarrow> jsstring action" where
  "fsReadFile filePath w =
     (case files w filePath of None \<Rightarrow> (Inl NoSuchFile, w) | Some content \<Rightarrow> (Inr content, w))"

text \<open>
  \<open>FileManager.writeFile\<close>. The directory of the path is created first; directories are not
  part of the world, and \<open>ensureDirectoryExists\<close> swallows its own errors.
\<close>

definition writeFile :: "jsstring \<Rightarrow> jsstring \<Rightarrow> jsstring \<Rightarrow> unit action" where
  "writeFile filePath content keyName =
     andThen (validatePath filePath ''filePath'') (\<lambda>_.
       if content = [] then andThen (logger (WarnNoContent keyName)) (\<lambda>_. throw NoContentProvided)
       else captureError ''writeFile'' (fsWriteFile filePath content))"

definition writeKeyToBaseEnvFile :: "environmentFileManager \<Rightarrow> jsstring \<Rightarrow> jsstring \<Rightarrow> unit action" where
  "writeKeyToBaseEnvFile mgr content keyName =
     captureError ''writeEnvFile''
       (andThen (writeFile (baseEnvironmentFilePath mgr) content keyName) (\<lambda>_.
        logger (InfoKeyWritten keyName)))"

definition readBaseEnvFile :: "environmentFileManager \<Rightarrow> jsstring action" where
  "readBaseEnvFile mgr = captureError ''readEnvFile'' (fsReadFile (baseEnvironmentFilePath mgr))"

text \<open>\<open>new RegExp(`^${keyName}=`, 'm').test(envFilePaths)\<close>: the key name is the pattern's text.\<close>

definition storeBaseEnvKey :: "platform \<Rightarrow> environmentFileManager \<Rightarrow> jsstring \<Rightarrow> jsstring \<Rightarrow> unit action" where
  "storeBaseEnvKey P mgr keyName keyValue =
     captureError ''storeKeyInEnv''
       (andThen (readBaseEnvFile mgr) (\<lambda>envFilePaths.
        andThen (library (regExpTestMultiline P ([0x5E] @ keyName @ [EQUALS]) envFilePaths)) (\<lambda>found.
          if found then logger (InfoKeyAlreadyExists keyName)
          else andThen (writeKeyToBaseEnvFile mgr
                          (envFilePaths @ [NEWLINE] @ keyName @ [EQUALS] @ keyValue) keyName) (\<lambda>_.
               logger (InfoKeyAdded keyName)))))"

section \<open>EncryptionServiceUtils\<close>

text \<open>
  \<open>'salt' in parsedData\<close> for the three names the code asks for, none of which is a member
  of \<open>Object.prototype\<close> or \<open>Array.prototype\<close>: true exactly for an object with that key.
\<close>

definition typeofObject :: "json \<Rightarrow> bool" where
  "typeofObject j = (case j of JNull \<Rightarrow> True | JArray _ \<Rightarrow> True | JObject _ \<Rightarrow> True | _ \<Rightarrow> False)"

definition hasKey :: "jsstring \<Rightarrow> json \<Rightarrow> bool" where
  "hasKey name j = (case j of JObject members \<Rightarrow> name \<in> fst ` set members | _ \<Rightarrow> False)"

definition hasEncryptionFields :: "json \<Rightarrow> bool" where
  "hasEncryptionFields parsedData \<longleftrightarrow>
     typeofObject parsedData \<and> parsedData \<noteq> JNull \<and> hasKey (js ''salt'') parsedData
     \<and> hasKey (js ''iv'') parsedData \<and> hasKey (js ''cipherText'') parsedData"

definition isAlreadyEncrypted :: "platform \<Rightarrow> jsstring \<Rightarrow> bool action" where
  "isAlreadyEncrypted P value =
     (if value = [] then andThen (logger WarnNullOrEmpty) (\<lambda>_. ok False)
      else
        let trimmedValue = trim value in
        if \<not> (startsWith trimmedValue [LBRACE] \<and> endsWith trimmedValue [RBRACE]) then ok False
        else
          (case jsonParse P value of
             Inr parsedData \<Rightarrow> ok (hasEncryptionFields parsedData)
           | Inl e \<Rightarrow> andThen (logger (ErrorParsing e)) (\<lambda>_. ok False)))"

definition encryptIfNeeded :: "platform \<Rightarrow> jsstring \<Rightarrow> jsstring \<Rightarrow> encryptedValue action" where
  "encryptIfNeeded P value secretKey =
     andThen (isAlreadyEncrypted P value) (\<lambda>already.
       if already then ok (Unchanged value)
       else andThen (encrypt P value secretKey) (\<lambda>encryptedResult.
              ok (Encrypted \<lparr>salt = salt encryptedResult, iv = iv encryptedResult,
                              cipherText = cipherText encryptedResult\<rparr>)))"

text \<open>
  \<open>!encryptedValue || encryptedValue === value\<close>: an object is truthy and never equal to a
  string.
\<close>

definition skipsEncryption :: "encryptedValue \<Rightarrow> jsstring \<Rightarrow> bool" where
  "skipsEncryption encryptedValue value =
     (case encryptedValue of Unchanged s \<Rightarrow> s = [] \<or> s = value | Encrypted _ \<Rightarrow> False)"

text \<open>
  One round of the loop of \<open>processVariablesForEncryption\<close>. A value that came from
  \<open>Object.prototype\<close> has no \<open>trim\<close>.
\<close>

definition processVariable ::
  "platform \<Rightarrow> jsstring \<Rightarrow> jsstring \<times> jsval \<Rightarrow> jsstring list \<times> nat \<Rightarrow> (jsstring list \<times> nat) action" where
  "processVariable P secretKey entry state =
     (case (entry, state) of ((key, value), (updatedLines, encryptedCount)) \<Rightarrow>
        if truthy value then
          (case value of
             Inherited \<Rightarrow> throw TypeError
           | Str v \<Rightarrow>
               andThen (encryptIfNeeded P (trim v) secretKey) (\<lambda>encryptedValue.
                 if skipsEncryption encryptedValue v
                 then andThen (logger (InfoSkippingEncryption key)) (\<lambda>_.
                        ok (updatedLines, encryptedCount))
                 else ok (updateEnvironmentLines updatedLines key (JSON_stringify encryptedValue),
                          encryptedCount + 1)))
        else ok (updatedLines, encryptedCount))"

definition processVariablesForEncryption ::
  "platform \<Rightarrow> environmentFileManager \<Rightarrow> jsstring list \<Rightarrow> jsrecord \<Rightarrow> (jsstring list \<times> nat) action" where
  "processVariablesForEncryption P mgr envFileLines variablesToEncrypt =
     forEach (processVariable P (secretKeyVariable mgr)) variablesToEncrypt (envFileLines, 0)"

definition findEnvironmentVariable :: "jsrecord \<Rightarrow> jsstring \<Rightarrow> jsrecord action" where
  "findEnvironmentVariable allEnvVariables lookupValue =
     (case getProperty allEnvVariables lookupValue of
        Some v \<Rightarrow> if truthy v then ok (setProperty [] lookupValue v)
                  else
                    (case find (\<lambda>(key, value). value = Str lookupValue) allEnvVariables of
                       Some (key, value) \<Rightarrow>
                         andThen (logger (InfoKeyFound key)) (\<lambda>_. ok (setProperty [] key value))
                     | None \<Rightarrow> ok [])
      | None \<Rightarrow>
          (case find (\<lambda>(key, value). value = Str lookupValue) allEnvVariables of
             Some (key, value) \<Rightarrow>
               andThen (logger (InfoKeyFound key)) (\<lambda>_. ok (setProperty [] key value))
           | None \<Rightarrow> ok []))"

text \<open>\<open>found\<close> is an object, and every object is truthy, the empty one too.\<close>

definition objectTruthy :: "jsrecord \<Rightarrow> bool" where
  "objectTruthy r = True"

definition determineVariablesToEncrypt :: "jsrecord \<Rightarrow> jsstring list option \<Rightarrow> jsrecord action" where
  "determineVariablesToEncrypt allEnvVariables envVariables =
     (if (case envVariables of None \<Rightarrow> False | Some lookups \<Rightarrow> length lookups > 0) then
        forEach (\<lambda>lookupValue variablesToEncrypt.
                   andThen (findEnvironmentVariable allEnvVariables lookupValue) (\<lambda>found.
                   andThen (if \<not> objectTruthy found then logger (WarnLookupNotFound lookupValue)
                            else ok ()) (\<lambda>_.
                   ok (objectAssign variablesToEncrypt found))))
          (the envVariables) []
      else ok (objectAssign [] allEnvVariables))"

definition readEnvFileAsLines :: "environmentFileManager \<Rightarrow> jsstring list action" where
  "readEnvFileAsLines mgr =
     captureError ''readEnvFile''
       (andThen (fsReadFile (environmentFilePath mgr)) (\<lambda>content. ok (split NEWLINE content)))"

definition writeEnvFileLines :: "environmentFileManager \<Rightarrow> jsstring list \<Rightarrow> unit action" where
  "writeEnvFileLines mgr lines =
     captureError ''writeEnvFile''
       (writeFile (environmentFilePath mgr) (join NEWLINE lines) (js ''utf8''))"

definition logEncryptionSuccess :: "nat \<Rightarrow> nat \<Rightarrow> unit action" where
  "logEncryptionSuccess originalCount encryptedCount =
     captureError ''logEncryptionSuccess''
       (if encryptedCount > 0 then logger (InfoEncryptionComplete encryptedCount) else ok ())"

definition encryptEnvVariables ::
  "platform \<Rightarrow> environmentFileManager \<Rightarrow> jsstring list option \<Rightarrow> unit action" where
  "encryptEnvVariables P mgr envVariables =
     captureError ''encryptEnvParameters''
       (andThen (readEnvFileAsLines mgr) (\<lambda>envFileLines.
        andThen (ok (extractEnvironmentVariables envFileLines)) (\<lambda>allEnvVariables.
        andThen (determineVariablesToEncrypt allEnvVariables envVariables) (\<lambda>variablesToEncrypt.
        andThen (processVariablesForEncryption P mgr envFileLines variablesToEncrypt)
          (\<lambda>(updatedLines, encryptedCount).
        andThen (writeEnvFileLines mgr updatedLines) (\<lambda>_.
        logEncryptionSuccess (length variablesToEncrypt) encryptedCount))))))"

section \<open>A reference instance of the externals\<close>

text \<open>
  A small, fully computable instance of the parameters, on which the code can be run: short
  lengths, a counter in place of randomness, two hexadecimal digits per byte in place of
  base64, a shift cipher with a one-byte tag in place of AES-GCM, a JSON reader for objects
  of plain strings, and a regular-expression engine for patterns made of \<open>^\<close>, ordinary
  characters and \<open>.\<close>. It stands for no real library; it shows that what the theorems
  assume of the externals can be met, and it runs the code where a theorem is about one
  input.
\<close>

definition demoRandom :: "nat \<Rightarrow> int \<Rightarrow> error + byte list" where
  "demoRandom draw n = (if n < 0 then Inl RangeError else Inr (replicate (nat n) (of_nat draw + 1)))"

definition demoHexDigit :: "byte \<Rightarrow> jschar" where
  "demoHexDigit n = (if n < 10 then 0x30 + ucast n else 0x57 + ucast n)"

definition demoHexValue :: "jschar \<Rightarrow> byte" where
  "demoHexValue c = (if c < 0x3A then ucast (c - 0x30) else ucast (c - 0x57))"

definition demoEncode :: "byte list \<Rightarrow> jsstring" where
  "demoEncode bs = concat (map (\<lambda>b. [demoHexDigit (drop_bit 4 b), demoHexDigit (take_bit 4 b)]) bs)"

fun demoDecode :: "jsstring \<Rightarrow> byte list" where
  "demoDecode (c # d # cs) = (push_bit 4 (demoHexValue c) + demoHexValue d) # demoDecode cs"
| "demoDecode _ = []"

definition demoBufferFrom :: "json \<Rightarrow> error + byte list" where
  "demoBufferFrom j = (case j of JString s \<Rightarrow> Inr (demoDecode s) | _ \<Rightarrow> Inl TypeError)"

definition demoHash :: "jsstring \<Rightarrow> byte list \<Rightarrow> error + byte list" where
  "demoHash secretKey saltBytes = Inr [sum_list (textEncode secretKey) + sum_list saltBytes]"

definition demoTag :: "byte list \<Rightarrow> byte list \<Rightarrow> byte list \<Rightarrow> byte" where
  "demoTag key ivBytes plain = sum_list key + sum_list ivBytes + sum_list plain"

definition demoEncrypt :: "byte list \<Rightarrow> byte list \<Rightarrow> byte list \<Rightarrow> error + byte list" where
  "demoEncrypt key ivBytes plain =
     Inr (demoTag key ivBytes plain # map (\<lambda>b. b + sum_list key) plain)"

definition demoDecrypt :: "byte list \<Rightarrow> byte list \<Rightarrow> byte list \<Rightarrow> error + byte list" where
  "demoDecrypt key ivBytes cipher =
     (case cipher of
        [] \<Rightarrow> Inl (LibraryError 1)
      | tag # body \<Rightarrow>
          let plain = map (\<lambda>b. b - sum_list key) body
          in if tag = demoTag key ivBytes plain then Inr plain else Inl (LibraryError 1))"

fun demoTakeString :: "jsstring \<Rightarrow> (jsstring \<times> jsstring) option" where
  "demoTakeString [] = None"
| "demoTakeString (c # cs) =
     (if c = DQUOTE then Some ([], cs)
      else if c = BACKSLASH \<or> c < 0x20 then None
      else (case demoTakeString cs of None \<Rightarrow> None | Some (s, rest) \<Rightarrow> Some (c # s, rest)))"

definition demoMember :: "jsstring \<Rightarrow> ((jsstring \<times> json) \<times> jsstring) option" where
  "demoMember s =
     (case s of
        [] \<Rightarrow> None
      | c # cs \<Rightarrow>
          if c \<noteq> DQUOTE then None
          else
            (case demoTakeString cs of
               None \<Rightarrow> None
             | Some (key, rest) \<Rightarrow>
                 (case rest of
                    c1 # c2 # rest' \<Rightarrow>
                      if c1 = COLON \<and> c2 = DQUOTE then
                        (case demoTakeString rest' of
                           None \<Rightarrow> None
                         | Some (v, rest'') \<Rightarrow> Some ((key, JString v), rest''))
                      else None
                  | _ \<Rightarrow> None)))"

fun demoMembers :: "nat \<Rightarrow> jsstring \<Rightarrow> (jsstring \<times> json) list option" where
  "demoMembers 0 s = None"
| "demoMembers (Suc n) s =
     (case demoMember s of
        None \<Rightarrow> None
      | Some (m, rest) \<Rightarrow>
          if rest = [RBRACE] then Some [m]
          else
            (case rest of
               [] \<Rightarrow> None
             | c # others \<Rightarrow>
                 if c = COMMA then
                   (case demoMembers n others of None \<Rightarrow> None | Some ms \<Rightarrow> Some (m # ms))
                 else None))"

definition demoJsonParse :: "jsstring \<Rightarrow> error + json" where
  "demoJsonParse s =
     (case s of
        [] \<Rightarrow> Inl SyntaxError
      | c # cs \<Rightarrow>
          if c \<noteq> LBRACE then Inl SyntaxError
          else if cs = [RBRACE] then Inr (JObject [])
          else
            (case demoMembers (length cs) cs of
               None \<Rightarrow> Inl SyntaxError
             | Some ms \<Rightarrow> Inr (JObject ms)))"

definition isLineTerminator :: "jschar \<Rightarrow> bool" where
  "isLineTerminator c \<longleftrightarrow> c = 0x0A \<or> c = 0x0D \<or> c = 0x2028 \<or> c = 0x2029"

definition isSyntaxCharacter :: "jschar \<Rightarrow> bool" where
  "isSyntaxCharacter c \<longleftrightarrow>
     c = 0x5E \<or> c = 0x24 \<or> c = 0x5C \<or> c = 0x2E \<or> c = 0x2A \<or> c = 0x2B \<or> c = 0x3F
     \<or> c = 0x28 \<or> c = 0x29 \<or> c = 0x5B \<or> c = 0x5D \<or> c = 0x7B \<or> c = 0x7D \<or> c = 0x7C"

fun demoMatchHere :: "jsstring \<Rightarrow> jsstring \<Rightarrow> bool" where
  "demoMatchHere [] s = True"
| "demoMatchHere (a # as) [] = False"
| "demoMatchHere (a # as) (c # cs) =
     ((if a = 0x2E then \<not> isLineTerminator c else a = c) \<and> demoMatchHere as cs)"

fun demoMatchAtLineStart :: "jsstring \<Rightarrow> bool \<Rightarrow> jsstring \<Rightarrow> bool" where
  "demoMatchAtLineStart atoms atStart [] = (atStart \<and> demoMatchHere atoms [])"
| "demoMatchAtLineStart atoms atStart (c # cs) =
     ((atStart \<and> demoMatchHere atoms (c # cs))
      \<or> demoMatchAtLineStart atoms (isLineTerminator c) cs)"

definition demoRegExpTest :: "jsstring \<Rightarrow> jsstring \<Rightarrow> error + bool" where
  "demoRegExpTest pattern subject =
     (case pattern of
        [] \<Rightarrow> Inl (LibraryError 2)
      | c # atoms \<Rightarrow>
          if c = 0x5E \<and> list_all (\<lambda>a. a = 0x2E \<or> \<not> isSyntaxCharacter a) atoms
          then Inr (demoMatchAtLineStart atoms True subject)
          else Inl (LibraryError 2))"

definition demo :: platform where
  "demo =
     \<lparr>IV_LENGTH = 2, WEB_CRYPTO_IV_LENGTH = 1, SALT_LENGTH = 1, SECRET_KEY_LENGTH = 2,
      randomBytes = demoRandom, getRandomValues = demoRandom, webCryptoAvailable = True,
      base64Encode = demoEncode, bufferFromBase64 = demoBufferFrom, argon2Hash = demoHash,
      importKey = Inr, aesGcmEncrypt = demoEncrypt, aesGcmDecrypt = demoDecrypt,
      jsonParse = demoJsonParse, regExpTestMultiline = demoRegExpTest\<rparr>"

definition demoManager :: environmentFileManager where
  "demoManager =
     \<lparr>environmentFilePath = js ''dev'', secretKeyVariable = js ''k1'',
      baseEnvironmentFilePath = js ''base''\<rparr>"

definition worldWith :: "(jsstring \<times> jsstring) list \<Rightarrow> world" where
  "worldWith fs = \<lparr>files = map_of fs, writes = [], logged = [], randomDraws = 0\<rparr>"

section \<open>Notions used in the statements\<close>

text \<open>
  The order of the own properties of an object: an array-index key precedes every other key
  and every greater array-index key. A record is well formed when its keys are distinct, in
  that order, and \<open>__proto__\<close> is not among them.
\<close>

definition keyPrecedes :: "jsstring \<Rightarrow> jsstring \<Rightarrow> bool" where
  "keyPrecedes k1 k2 \<longleftrightarrow>
     (if isArrayIndex k1 then isArrayIndex k2 \<longrightarrow> indexBefore k1 k2 else \<not> isArrayIndex k2)"

definition wellFormed :: "jsrecord \<Rightarrow> bool" where
  "wellFormed r \<longleftrightarrow>
     distinct (map fst r) \<and> js ''__proto__'' \<notin> fst ` set r \<and> sorted_wrt keyPrecedes (map fst r)"


text \<open>
  What \<open>isAlreadyEncrypted\<close> answers, as a predicate of the value alone.
\<close>

definition judgedEncrypted :: "platform \<Rightarrow> jsstring \<Rightarrow> bool" where
  "judgedEncrypted P value \<longleftrightarrow>
     value \<noteq> [] \<and> startsWith (trim value) [LBRACE] \<and> endsWith (trim value) [RBRACE]
     \<and> (case jsonParse P value of Inr parsedData \<Rightarrow> hasEncryptionFields parsedData | Inl e \<Rightarrow> False)"

text \<open>An action that leaves every file as it is and writes nothing.\<close>

definition keepsFiles :: "'a action \<Rightarrow> bool" where
  "keepsFiles m \<longleftrightarrow> (\<forall>w. files (snd (m w)) = files w \<and> writes (snd (m w)) = writes w)"


text \<open>The defining equations, for running the model on a given input.\<close>

named_theorems eval
declare js_def [eval] isWhiteSpace_def [eval] trim_def [eval] startsWith_def [eval] endsWith_def [eval]
  includesChar_def [eval] truthy_def [eval] isDigit_def [eval] digitsValue_def [eval] isArrayIndex_def [eval]
  objectPrototypeNames_def [eval] getProperty_def [eval] indexBefore_def [eval] setProperty_def [eval]
  objectAssign_def [eval] parseEnvironmentLine_def [eval] extractEnvironmentVariables_def [eval]
  updateEnvironmentLines_def [eval] isHighSurrogate_def [eval] isLowSurrogate_def [eval]
  utf8Bytes_def [eval] textEncode_def [eval] utf16Units_def [eval] dropBOM_def [eval] textDecode_def [eval]
  hexDigit_def [eval] unicodeEscape_def [eval] quoteJSONString_def [eval] JSON_stringify_def [eval]
  paramsJSON_def [eval] ok_def [eval] throw_def [eval] andThen_def [eval] library_def [eval]
  logger_def [eval] captureError_def [eval] logAndThrow_def [eval]
  cryptoRandomBytes_def [eval] cryptoGetRandomValues_def [eval] generateBase64IV_def [eval]
  generateBufferIV_def [eval] generateWebCryptoIV_def [eval] generateBase64Salt_def [eval]
  generateBase64SecretKey_def [eval] argon2Hashing_def [eval] importKeyForCrypto_def [eval]
  bufferFrom_def [eval] deriveKeyWithArgon2_def [eval] encryptBuffer_def [eval] encrypt_def [eval]
  jsonField_def [eval] jsonTruthy_def [eval] validateParsedData_def [eval] parseEncryptedData_def [eval]
  decryptBuffer_def [eval] decrypt_def [eval] validatePath_def [eval] fsWriteFile_def [eval]
  fsReadFile_def [eval] writeFile_def [eval] writeKeyToBaseEnvFile_def [eval] readBaseEnvFile_def [eval]
  storeBaseEnvKey_def [eval] typeofObject_def [eval] hasKey_def [eval] hasEncryptionFields_def [eval]
  isAlreadyEncrypted_def [eval] encryptIfNeeded_def [eval] skipsEncryption_def [eval]
  processVariable_def [eval] processVariablesForEncryption_def [eval] findEnvironmentVariable_def [eval]
  objectTruthy_def [eval] determineVariablesToEncrypt_def [eval] readEnvFileAsLines_def [eval]
  writeEnvFileLines_def [eval] logEncryptionSuccess_def [eval] encryptEnvVariables_def [eval]
  demoRandom_def [eval] demoHexDigit_def [eval] demoHexValue_def [eval] demoEncode_def [eval]
  demoBufferFrom_def [eval] demoHash_def [eval] demoTag_def [eval] demoEncrypt_def [eval]
  demoDecrypt_def [eval] demoMember_def [eval] demoJsonParse_def [eval] isLineTerminator_def [eval]
  isSyntaxCharacter_def [eval] demoRegExpTest_def [eval] demo_def [eval] demoManager_def [eval]
  worldWith_def [eval]


text \<open>
  The line updates a run of \<open>processVariablesForEncryption\<close> makes, as pairs of a key and
  the serialized value written for it, applied in turn; and the lines such updates reach.
\<close>

definition applyUpdates :: "jsstring list \<Rightarrow> (jsstring \<times> jsstring) list \<Rightarrow> jsstring list" where
  "applyUpdates lines ups = foldl (\<lambda>ls (k, j). updateEnvironmentLines ls k j) lines ups"




text \<open>
  What the theorems on encryption assume of the externals. Base64 text decodes to the bytes
  it encodes, is made of the base64 alphabet, and is empty only for no bytes; authenticated
  decryption undoes encryption under the same key and IV, and a ciphertext (which carries
  the tag) is never empty; a random draw that succeeds has the length asked for; and
  \<open>JSON.parse\<close> reads back a serialized parameter object whose fields are base64 text.
\<close>

definition isBase64Char :: "jschar \<Rightarrow> bool" where
  "isBase64Char c \<longleftrightarrow>
     (0x41 \<le> c \<and> c \<le> 0x5A) \<or> (0x61 \<le> c \<and> c \<le> 0x7A) \<or> (0x30 \<le> c \<and> c \<le> 0x39)
     \<or> c = 0x2B \<or> c = 0x2F \<or> c = 0x3D"

definition base64Text :: "jsstring \<Rightarrow> bool" where
  "base64Text s \<longleftrightarrow> list_all isBase64Char s"

definition base64Sound :: "platform \<Rightarrow> bool" where
  "base64Sound P \<longleftrightarrow>
     (\<forall>bs. bufferFromBase64 P (JString (base64Encode P bs)) = Inr bs)
     \<and> (\<forall>bs. base64Text (base64Encode P bs))
     \<and> (\<forall>bs. bs \<noteq> [] \<longrightarrow> base64Encode P bs \<noteq> [])"

definition cipherSound :: "platform \<Rightarrow> bool" where
  "cipherSound P \<longleftrightarrow>
     (\<forall>key ivBytes plain cipher.
        aesGcmEncrypt P key ivBytes plain = Inr cipher \<longrightarrow>
        cipher \<noteq> [] \<and> aesGcmDecrypt P key ivBytes cipher = Inr plain)"

definition randomSound :: "platform \<Rightarrow> bool" where
  "randomSound P \<longleftrightarrow>
     (\<forall>draw n bs. randomBytes P draw n = Inr bs \<or> getRandomValues P draw n = Inr bs
        \<longrightarrow> int (length bs) = n)"

definition jsonSound :: "platform \<Rightarrow> bool" where
  "jsonSound P \<longleftrightarrow>
     (\<forall>p. base64Text (salt p) \<and> base64Text (iv p) \<and> base64Text (cipherText p) \<longrightarrow>
        jsonParse P (JSON_stringify (Encrypted p)) = Inr (paramsJSON p))"

text \<open>
  A key as \<open>parseEnvironmentLine\<close> returns it: not empty, without \<open>=\<close>, and trimmed.
\<close>

definition plainKey :: "jsstring \<Rightarrow> bool" where
  "plainKey k \<longleftrightarrow> k \<noteq> [] \<and> EQUALS \<notin> set k \<and> trim k = k"

text \<open>
  The values of the entries of one key, in the order of the lines; and a file in which
  every entry line begins with its key, immediately followed by \<open>=\<close>.
\<close>

fun entryValues :: "jsstring \<Rightarrow> jsstring list \<Rightarrow> jsstring list" where
  "entryValues k [] = []"
| "entryValues k (l # ls) =
     (case parseEnvironmentLine l of
        Some (k', v) \<Rightarrow> if k' = k then v # entryValues k ls else entryValues k ls
      | None \<Rightarrow> entryValues k ls)"

definition keysAtLineStart :: "jsstring list \<Rightarrow> bool" where
  "keysAtLineStart ls \<longleftrightarrow>
     (\<forall>l \<in> set ls. \<forall>k v. parseEnvironmentLine l = Some (k, v) \<longrightarrow> startsWith l (k @ [EQUALS]))"

section \<open>Records keep the order of \<open>Object.entries\<close>\<close>





lemma set_insertProperty: "set (insertProperty k v r) = insert (k, v) (set r)"
  by (induction r) (auto split: if_splits)







lemma fst_update_fun:
  "(\<lambda>x. fst (case x of (k', v') \<Rightarrow> if k' = k then (k', v) else (k', v'))) = fst"
  by (auto simp: fun_eq_iff)

lemma update_keys:
  "fst ` set (map (\<lambda>(k', v'). if k' = k then (k', v) else (k', v')) r) = fst ` set r"
  by (induction r) auto

lemma setProperty_keys:
  "fst ` set (setProperty r k v) =
   (if k = js ''__proto__'' then fst ` set r else insert k (fst ` set r))"
proof (cases "k = js ''__proto__''")
  case True
  then show ?thesis by (simp add: setProperty_def)
next
  case False
  show ?thesis
  proof (cases "k \<in> fst ` set r")
    case True
    with False have "setProperty r k v = map (\<lambda>(k', v'). if k' = k then (k', v) else (k', v')) r"
      by (simp add: setProperty_def)
    with True False show ?thesis by (simp only: update_keys) auto
  next
    case notin: False
    with False show ?thesis by (simp add: setProperty_def set_insertProperty)
  qed
qed








section \<open>Which actions touch no file\<close>

named_theorems keeps

lemma keepsFiles_ok [keeps]: "keepsFiles (ok x)"
  by (simp add: keepsFiles_def ok_def)

lemma keepsFiles_throw [keeps]: "keepsFiles (throw e)"
  by (simp add: keepsFiles_def throw_def)

lemma keepsFiles_library [keeps]: "keepsFiles (library r)"
  by (simp add: keepsFiles_def library_def)

lemma keepsFiles_logger [keeps]: "keepsFiles (logger ev)"
  by (simp add: keepsFiles_def logger_def)

lemma keepsFiles_logAndThrow [keeps]: "keepsFiles (logAndThrow e source)"
  by (simp add: keepsFiles_def logAndThrow_def)

lemma keepsFiles_andThen [keeps]:
  "keepsFiles m \<Longrightarrow> (\<And>x. keepsFiles (f x)) \<Longrightarrow> keepsFiles (andThen m f)"
  unfolding keepsFiles_def andThen_def
  by (auto split: prod.splits sum.splits) (metis snd_conv)+

lemma keepsFiles_captureError [keeps]: "keepsFiles m \<Longrightarrow> keepsFiles (captureError source m)"
  unfolding keepsFiles_def captureError_def
  by (auto split: prod.splits sum.splits) (metis snd_conv)+

lemma keepsFiles_forEach [keeps]:
  "(\<And>x s. keepsFiles (f x s)) \<Longrightarrow> keepsFiles (forEach f xs s)"
proof (induction xs arbitrary: s)
  case Nil
  show ?case by (simp add: keepsFiles_def)
next
  case (Cons x xs)
  show ?case unfolding keepsFiles_def
  proof (intro allI)
    fix w
    from Cons.prems [of x s] have 1: "files (snd (f x s w)) = files w \<and> writes (snd (f x s w)) = writes w"
      by (simp add: keepsFiles_def)
    show "files (snd (forEach f (x # xs) s w)) = files w \<and> writes (snd (forEach f (x # xs) s w)) = writes w"
    proof (cases "f x s w")
      case (Pair r w')
      show ?thesis
      proof (cases r)
        case (Inl e)
        with Pair 1 show ?thesis by simp
      next
        case (Inr s')
        from Cons.IH [OF Cons.prems, of s'] have "files (snd (forEach f xs s' w')) = files w' \<and> writes (snd (forEach f xs s' w')) = writes w'"
          by (simp add: keepsFiles_def)
        with Pair Inr 1 show ?thesis by simp
      qed
    qed
  qed
qed

lemma keepsFiles_cryptoRandomBytes [keeps]: "keepsFiles (cryptoRandomBytes P n)"
  by (simp add: keepsFiles_def cryptoRandomBytes_def)

lemma keepsFiles_cryptoGetRandomValues [keeps]: "keepsFiles (cryptoGetRandomValues P n)"
  by (simp add: keepsFiles_def cryptoGetRandomValues_def)

lemma keepsFiles_generateBase64Salt [keeps]: "keepsFiles (generateBase64Salt P len)"
  unfolding generateBase64Salt_def Let_def by (auto intro!: keeps)

lemma keepsFiles_generateWebCryptoIV [keeps]: "keepsFiles (generateWebCryptoIV P len)"
  unfolding generateWebCryptoIV_def Let_def by (auto intro!: keeps)

lemma keepsFiles_bufferFrom [keeps]: "keepsFiles (bufferFrom P x)"
  unfolding bufferFrom_def by (auto intro!: keeps split: option.splits)

lemma keepsFiles_deriveKeyWithArgon2 [keeps]: "keepsFiles (deriveKeyWithArgon2 P secretKey saltValue)"
  unfolding deriveKeyWithArgon2_def argon2Hashing_def importKeyForCrypto_def by (intro keeps)

lemma keepsFiles_encrypt [keeps]: "keepsFiles (encrypt P value secretKey)"
  unfolding encrypt_def encryptBuffer_def by (intro keeps)

lemma keepsFiles_isAlreadyEncrypted [keeps]: "keepsFiles (isAlreadyEncrypted P value)"
  unfolding isAlreadyEncrypted_def Let_def by (auto intro!: keeps split: sum.splits)

lemma keepsFiles_encryptIfNeeded [keeps]: "keepsFiles (encryptIfNeeded P value secretKey)"
  unfolding encryptIfNeeded_def by (auto intro!: keeps)

lemma keepsFiles_processVariable [keeps]: "keepsFiles (processVariable P secretKey entry state)"
  unfolding processVariable_def by (auto intro!: keeps split: prod.splits jsval.splits)


lemma keepsFiles_findEnvironmentVariable [keeps]:
  "keepsFiles (findEnvironmentVariable allEnvVariables lookupValue)"
  unfolding findEnvironmentVariable_def by (auto intro!: keeps split: option.splits prod.splits)



section \<open>The check for an already encrypted value\<close>

lemma hasEncryptionFields_iff:
  "hasEncryptionFields j \<longleftrightarrow>
     (\<exists>members. j = JObject members \<and> js ''salt'' \<in> fst ` set members
        \<and> js ''iv'' \<in> fst ` set members \<and> js ''cipherText'' \<in> fst ` set members)"
  by (cases j) (simp_all add: hasEncryptionFields_def typeofObject_def hasKey_def)

lemma isAlreadyEncrypted_result:
  "fst (isAlreadyEncrypted P value w) = Inr (judgedEncrypted P value)"
  by (auto simp: isAlreadyEncrypted_def judgedEncrypted_def Let_def andThen_def logger_def ok_def
      split: sum.splits)

text \<open>
  Claim C5. For every string, \<open>isAlreadyEncrypted\<close> returns true exactly when the value is
  not empty, its trimmed form starts with an opening and ends with a closing brace, the
  value parses as JSON, and the parsed object has the keys \<open>salt\<close>, \<open>iv\<close> and
  \<open>cipherText\<close>. It never throws: the result is always a value, and it is false when
  \<open>JSON.parse\<close> fails. This holds whatever \<open>JSON.parse\<close> does.
\<close>

theorem C5_isAlreadyEncrypted_characterised:
  "fst (isAlreadyEncrypted P value w) =
     Inr (value \<noteq> [] \<and> startsWith (trim value) [LBRACE] \<and> endsWith (trim value) [RBRACE]
          \<and> (\<exists>members. jsonParse P value = Inr (JObject members)
                \<and> js ''salt'' \<in> fst ` set members \<and> js ''iv'' \<in> fst ` set members
                \<and> js ''cipherText'' \<in> fst ` set members))"
proof -
  have "(case jsonParse P value of Inr parsedData \<Rightarrow> hasEncryptionFields parsedData | Inl e \<Rightarrow> False)
        = (\<exists>members. jsonParse P value = Inr (JObject members)
                \<and> js ''salt'' \<in> fst ` set members \<and> js ''iv'' \<in> fst ` set members
                \<and> js ''cipherText'' \<in> fst ` set members)"
    by (cases "jsonParse P value") (simp_all add: hasEncryptionFields_iff)
  then show ?thesis
    by (simp add: isAlreadyEncrypted_result judgedEncrypted_def)
qed

text \<open>
  Claim C5 on three inputs: a serialized parameter object is judged encrypted, a plain
  value is not, and a value in braces that is not JSON is not either.
\<close>

theorem C5_isAlreadyEncrypted_characterised_witness:
  "fst (isAlreadyEncrypted demo
          (JSON_stringify (Encrypted \<lparr>salt = js ''a'', iv = js ''b'', cipherText = js ''c''\<rparr>))
          (worldWith [])) = Inr True
   \<and> fst (isAlreadyEncrypted demo (js ''plain-value'') (worldWith [])) = Inr False
   \<and> fst (isAlreadyEncrypted demo (js ''{plain}'') (worldWith [])) = Inr False"
proof -
  have 1: "jsonParse demo (JSON_stringify (Encrypted \<lparr>salt = js ''a'', iv = js ''b'', cipherText = js ''c''\<rparr>))
      = Inr (paramsJSON \<lparr>salt = js ''a'', iv = js ''b'', cipherText = js ''c''\<rparr>)"
    by (simp add: eval)
  have 2: "jsonParse demo (js ''{plain}'') = Inl SyntaxError"
    by (simp add: eval)
  show ?thesis
    using C5_isAlreadyEncrypted_characterised [of demo "JSON_stringify (Encrypted \<lparr>salt = js ''a'', iv = js ''b'', cipherText = js ''c''\<rparr>)" "worldWith []"]
      C5_isAlreadyEncrypted_characterised [of demo "js ''plain-value''" "worldWith []"]
      C5_isAlreadyEncrypted_characterised [of demo "js ''{plain}''" "worldWith []"]
    unfolding 1 2 by (simp add: eval)
qed

section \<open>Lengths of random values\<close>

text \<open>
  The IV and salt generators reject a length that is not positive before they draw.
\<close>

lemma guarded_generators_reject:
  assumes "n \<le> 0"
  shows "generateBase64IV P (Some n) w = (Inl IvLengthNotPositive, w)"
    and "generateBufferIV P (Some n) w = (Inl IvLengthNotPositive, w)"
    and "generateWebCryptoIV P (Some n) w = (Inl IvLengthNotPositive, w)"
    and "generateBase64Salt P (Some n) w = (Inl SaltLengthNotPositive, w)"
  using assms
  by (simp_all add: generateBase64IV_def generateBufferIV_def generateWebCryptoIV_def
      generateBase64Salt_def throw_def)

text \<open>The secret-key generator draws whatever length it is given.\<close>

lemma generateBase64SecretKey_draws:
  "randomDraws (snd (generateBase64SecretKey P len w)) = Suc (randomDraws w)"
  by (simp add: generateBase64SecretKey_def Let_def captureError_def andThen_def
      cryptoRandomBytes_def ok_def split: sum.splits prod.splits)

text \<open>
  Claim C6 says that every generator, the secret-key generator included, fails on a zero
  or negative length before any random bytes are drawn. \<open>generateBase64SecretKey\<close> has no
  such check: called with length 0 it draws, and where the draw of no bytes succeeds it
  returns the empty string.
\<close>

theorem C6_secret_key_length_unchecked:
  "fst (generateBase64SecretKey demo (Some 0) (worldWith [])) = Inr []
   \<and> randomDraws (snd (generateBase64SecretKey demo (Some 0) (worldWith []))) = 1"
  by (simp add: eval)

section \<open>Choosing the variables to encrypt\<close>

text \<open>
  Claim C7 says that a lookup matching no key and no value produces a warning and is
  skipped. The lookup is skipped, but the test \<open>!found\<close> is made on an object, which is
  always truthy, so the warning is never logged: here the log stays empty.
\<close>

theorem C7_unresolved_lookup_not_warned:
  "fst (determineVariablesToEncrypt [(js ''USER'', Str (js ''alice''))] (Some [js ''MISSING''])
          (worldWith [])) = Inr []
   \<and> logged (snd (determineVariablesToEncrypt [(js ''USER'', Str (js ''alice''))]
          (Some [js ''MISSING'']) (worldWith []))) = []"
  by (simp add: eval)


section \<open>Storing a secret key\<close>

text \<open>
  Claim C8 says that \<open>storeBaseEnvKey\<close> leaves the file alone exactly when a line begins
  with \<open>keyName=\<close>, and appends otherwise. The key name is used as the text of a regular
  expression, so a name with a pattern character is matched as a pattern: for the name
  \<open>A.B\<close> and a file whose only line is \<open>AXB=1\<close>, no line begins with \<open>A.B=\<close>, yet
  nothing is appended.
\<close>

theorem C8_pattern_characters_in_key_name:
  "fst (storeBaseEnvKey demo demoManager (js ''A.B'') (js ''v'')
          (worldWith [(js ''base'', js ''AXB=1'')])) = Inr ()
   \<and> files (snd (storeBaseEnvKey demo demoManager (js ''A.B'') (js ''v'')
          (worldWith [(js ''base'', js ''AXB=1'')]))) (js ''base'') = Some (js ''AXB=1'')
   \<and> writes (snd (storeBaseEnvKey demo demoManager (js ''A.B'') (js ''v'')
          (worldWith [(js ''base'', js ''AXB=1'')]))) = []
   \<and> \<not> startsWith (js ''AXB=1'') (js ''A.B='')
   \<and> split NEWLINE (js ''AXB=1'') = [js ''AXB=1'']"
  by (simp add: eval)

section \<open>A failed encryption aborts the rewrite\<close>






section \<open>What a run of the loop does to the lines\<close>



lemma applyUpdates_Cons:
  "applyUpdates ls ((k, j) # ups) = applyUpdates (updateEnvironmentLines ls k j) ups"
  by (simp add: applyUpdates_def)















section \<open>Encryption and decryption\<close>

lemma fst_captureError: "fst (captureError source m w) = fst (m w)"
  by (simp add: captureError_def split: prod.splits sum.splits)

lemma fst_andThen_Inr:
  "(fst (andThen m f w) = Inr y) = (\<exists>x. fst (m w) = Inr x \<and> fst (f x (snd (m w))) = Inr y)"
  by (cases "m w") (auto simp: andThen_def split: sum.splits)

lemma fst_ok: "fst (ok x w) = Inr x"
  by (simp add: ok_def)

lemma fst_throw: "fst (throw e w) = Inl e"
  by (simp add: throw_def)

lemma fst_library: "fst (library r w) = r"
  by (simp add: library_def)

lemma fst_logAndThrow: "fst (logAndThrow e source w) = Inl e"
  by (simp add: logAndThrow_def)

lemmas fst_action = fst_captureError fst_andThen_Inr fst_ok fst_throw fst_library fst_logAndThrow

lemma deriveKeyWithArgon2_Inr:
  "(fst (deriveKeyWithArgon2 P secretKey (Some j) w) = Inr key)
   = (\<exists>saltBytes keyBuffer. bufferFromBase64 P j = Inr saltBytes
        \<and> argon2Hash P secretKey saltBytes = Inr keyBuffer \<and> importKey P keyBuffer = Inr key)"
  by (simp add: deriveKeyWithArgon2_def bufferFrom_def argon2Hashing_def importKeyForCrypto_def
      fst_action)

lemma generateBase64Salt_Inr:
  assumes "fst (generateBase64Salt P None w) = Inr saltText" and "randomSound P"
  shows "\<exists>bs. bs \<noteq> [] \<and> saltText = base64Encode P bs"
proof -
  from assms(1) have pos: "0 < SALT_LENGTH P"
    by (auto simp: generateBase64Salt_def Let_def fst_action split: if_splits)
  with assms(1) obtain bs where bs: "randomBytes P (randomDraws w) (SALT_LENGTH P) = Inr bs"
      and st: "saltText = base64Encode P bs"
    by (auto simp: generateBase64Salt_def Let_def fst_action cryptoRandomBytes_def)
  from bs assms(2) have "int (length bs) = SALT_LENGTH P" unfolding randomSound_def by blast
  with pos have "bs \<noteq> []" by auto
  with st show ?thesis by blast
qed

lemma generateWebCryptoIV_Inr:
  assumes "fst (generateWebCryptoIV P None w) = Inr bs" and "randomSound P"
  shows "bs \<noteq> []"
proof -
  from assms(1) have pos: "0 < WEB_CRYPTO_IV_LENGTH P"
    by (auto simp: generateWebCryptoIV_def Let_def fst_action split: if_splits)
  with assms(1) have "randomBytes P (randomDraws w) (WEB_CRYPTO_IV_LENGTH P) = Inr bs
      \<or> getRandomValues P (randomDraws w) (WEB_CRYPTO_IV_LENGTH P) = Inr bs"
    by (auto simp: generateWebCryptoIV_def Let_def fst_action cryptoRandomBytes_def
        cryptoGetRandomValues_def split: if_splits)
  with assms(2) have "int (length bs) = WEB_CRYPTO_IV_LENGTH P" unfolding randomSound_def by blast
  with pos show ?thesis by auto
qed

lemma encrypt_Inr:
  assumes "fst (encrypt P v secretKey w) = Inr p" and "randomSound P"
  shows "\<exists>saltBytes ivBytes key cipher.
           saltBytes \<noteq> [] \<and> ivBytes \<noteq> []
         \<and> fst (deriveKeyWithArgon2 P secretKey (Some (JString (base64Encode P saltBytes))) w) = Inr key
         \<and> aesGcmEncrypt P key ivBytes (textEncode v) = Inr cipher
         \<and> p = \<lparr>salt = base64Encode P saltBytes, iv = base64Encode P ivBytes,
                 cipherText = base64Encode P cipher\<rparr>"
proof -
  from assms(1) obtain saltText ivBytes key cipher w1 w2 where
    1: "fst (generateBase64Salt P None w) = Inr saltText"
    and 2: "fst (generateWebCryptoIV P None w1) = Inr ivBytes"
    and 3: "fst (deriveKeyWithArgon2 P secretKey (Some (JString saltText)) w2) = Inr key"
    and 4: "aesGcmEncrypt P key ivBytes (textEncode v) = Inr cipher"
    and 5: "p = \<lparr>salt = saltText, iv = base64Encode P ivBytes, cipherText = base64Encode P cipher\<rparr>"
    by (auto simp: encrypt_def encryptBuffer_def fst_action)
  from generateBase64Salt_Inr [OF 1 assms(2)] obtain saltBytes where
    s: "saltBytes \<noteq> []" "saltText = base64Encode P saltBytes" by blast
  from generateWebCryptoIV_Inr [OF 2 assms(2)] have i: "ivBytes \<noteq> []" .
  from 3 have "fst (deriveKeyWithArgon2 P secretKey (Some (JString saltText)) w) = Inr key"
    by (simp add: deriveKeyWithArgon2_Inr)
  with s i 4 5 show ?thesis by blast
qed

lemma paramsJSON_fields:
  "jsonField (paramsJSON p) (js ''salt'') = Some (JString (salt p))"
  "jsonField (paramsJSON p) (js ''iv'') = Some (JString (iv p))"
  "jsonField (paramsJSON p) (js ''cipherText'') = Some (JString (cipherText p))"
  by (simp_all add: jsonField_def paramsJSON_def js_def)

lemma JSON_stringify_nonempty: "JSON_stringify x \<noteq> []"
  by (cases x) (simp_all add: JSON_stringify_def quoteJSONString_def)

text \<open>
  Claim C1, amended. Given externals that behave as assumed above, for every secret and
  every plaintext that the UTF-8 text codec carries unchanged (\<open>TextDecoder\<close> of
  \<open>TextEncoder\<close> gives the string back), the empty string included: if \<open>encrypt\<close>
  succeeds, decrypting its serialized result with the same secret returns the plaintext.
\<close>

theorem C1_round_trip:
  assumes "base64Sound P" and "cipherSound P" and "randomSound P" and "jsonSound P"
    and "fst (encrypt P v secretKey w) = Inr p"
    and "textDecode (textEncode v) = v"
  shows "fst (decrypt P (JSON_stringify (Encrypted p)) secretKey w') = Inr v"
proof -
  from encrypt_Inr [OF assms(5,3)] obtain saltBytes ivBytes key cipher where
    ne: "saltBytes \<noteq> []" "ivBytes \<noteq> []"
    and key: "fst (deriveKeyWithArgon2 P secretKey (Some (JString (base64Encode P saltBytes))) w) = Inr key"
    and enc: "aesGcmEncrypt P key ivBytes (textEncode v) = Inr cipher"
    and p: "p = \<lparr>salt = base64Encode P saltBytes, iv = base64Encode P ivBytes,
                 cipherText = base64Encode P cipher\<rparr>"
    by blast
  from assms(2) enc have dec: "cipher \<noteq> []" "aesGcmDecrypt P key ivBytes cipher = Inr (textEncode v)"
    unfolding cipherSound_def by blast+
  from assms(1) have b64: "\<And>bs. bufferFromBase64 P (JString (base64Encode P bs)) = Inr bs"
    "\<And>bs. base64Text (base64Encode P bs)" "\<And>bs. bs \<noteq> [] \<Longrightarrow> base64Encode P bs \<noteq> []"
    unfolding base64Sound_def by blast+
  from assms(4) b64(2) have parse: "jsonParse P (JSON_stringify (Encrypted p)) = Inr (paramsJSON p)"
    unfolding jsonSound_def p by simp
  have fields: "salt p \<noteq> []" "iv p \<noteq> []" "cipherText p \<noteq> []"
    using ne dec(1) b64(3) by (simp_all add: p)
  have valid: "fst (validateParsedData (paramsJSON p) w1) = Inr ()" for w1
    using fields
    by (simp add: validateParsedData_def fst_action paramsJSON_fields jsonTruthy_def)
      (simp add: paramsJSON_def)
  have parsed: "fst (parseEncryptedData P (JSON_stringify (Encrypted p)) w1) = Inr (paramsJSON p)" for w1
    by (simp add: parseEncryptedData_def fst_action JSON_stringify_nonempty parse valid)
  have key': "fst (deriveKeyWithArgon2 P secretKey (Some (JString (salt p))) w1) = Inr key" for w1
    using key by (simp add: deriveKeyWithArgon2_Inr p)
  show ?thesis
    by (simp add: decrypt_def fst_action parsed paramsJSON_fields key' bufferFrom_def
        decryptBuffer_def)
      (simp add: p b64(1) dec(2) assms(6))
qed

text \<open>The reference instance meets what is assumed of the externals.\<close>

lemma unat_ucast_byte: "unat (ucast (n :: byte) :: jschar) = unat n"
proof -
  have "unat n < 2 ^ 8" using unsigned_less [of n] by simp
  then have "unat n < 2 ^ 16" by simp
  then show ?thesis by (simp add: unsigned_ucast_eq take_bit_nat_eq_self)
qed

lemma ucast_ucast_byte: "(ucast (ucast (x :: byte) :: jschar) :: byte) = x"
  by (simp add: ucast_up_ucast_id is_up)

lemma nibble_hi: "drop_bit 4 (b :: byte) \<le> 15"
proof -
  have "unat b < 256" using unsigned_less [of b] by simp
  then have "unat b div 16 \<le> 15" by simp
  then show ?thesis
    by (simp add: word_le_nat_alt unat_drop_bit_eq drop_bit_eq_div unat_div_distrib)
qed

lemma nibble_lo: "take_bit 4 (b :: byte) \<le> 15"
proof -
  have "unat b mod 16 \<le> 15" by simp
  then show ?thesis
    by (simp add: word_le_nat_alt unsigned_take_bit_eq take_bit_eq_mod unat_mod_distrib)
qed


lemma hex_roundtrip: "n \<le> 15 \<Longrightarrow> demoHexValue (demoHexDigit n) = n"
proof (cases "n < 10")
  case True
  then have n: "unat n < 10" by (simp add: word_less_nat_alt)
  then have "unat (0x30 + ucast n :: jschar) = 48 + unat n"
    by (simp add: unat_word_ariths unat_ucast_byte)
  with n have "(0x30 + ucast n :: jschar) < 0x3A"
    by (simp add: word_less_nat_alt)
  then show ?thesis using True by (simp add: demoHexDigit_def demoHexValue_def ucast_ucast_byte)
next
  case False
  assume "n \<le> 15"
  with False have n: "10 \<le> unat n \<and> unat n \<le> 15" by (simp add: word_le_nat_alt word_less_nat_alt)
  then have "unat (0x57 + ucast n :: jschar) = 87 + unat n"
    by (simp add: unat_word_ariths unat_ucast_byte)
  with n have "\<not> (0x57 + ucast n :: jschar) < 0x3A"
    by (simp add: word_less_nat_alt)
  then show ?thesis using False by (simp add: demoHexDigit_def demoHexValue_def ucast_ucast_byte)
qed
lemma hexDigit_base64: "n \<le> 15 \<Longrightarrow> isBase64Char (demoHexDigit n)"
proof (cases "n < 10")
  case True
  then have "unat n < 10" by (simp add: word_less_nat_alt)
  then have "unat (0x30 + ucast n :: jschar) = 48 + unat n"
    by (simp add: unat_word_ariths unat_ucast_byte)
  with \<open>unat n < 10\<close> have "0x30 \<le> (0x30 + ucast n :: jschar) \<and> (0x30 + ucast n :: jschar) \<le> 0x39"
    by (simp add: word_le_nat_alt)
  with True show ?thesis by (simp add: isBase64Char_def demoHexDigit_def)
next
  case False
  assume "n \<le> 15"
  with False have "10 \<le> unat n \<and> unat n \<le> 15" by (simp add: word_le_nat_alt word_less_nat_alt)
  then have "unat (0x57 + ucast n :: jschar) = 87 + unat n"
    by (simp add: unat_word_ariths unat_ucast_byte)
  with \<open>10 \<le> unat n \<and> unat n \<le> 15\<close> have "0x61 \<le> (0x57 + ucast n :: jschar) \<and> (0x57 + ucast n :: jschar) \<le> 0x7A"
    by (simp add: word_le_nat_alt)
  with False show ?thesis by (simp add: isBase64Char_def demoHexDigit_def)
qed

lemma demoDecode_demoEncode: "demoDecode (demoEncode bs) = bs"
  by (induction bs) (simp_all add: demoEncode_def hex_roundtrip nibble_hi nibble_lo bits_ident)

lemma demoEncode_base64: "list_all isBase64Char (demoEncode bs)"
  by (induction bs) (simp_all add: demoEncode_def hexDigit_base64 nibble_hi nibble_lo)
lemma base64_unat: "isBase64Char c \<Longrightarrow>
   (65 \<le> unat c \<and> unat c \<le> 90) \<or> (97 \<le> unat c \<and> unat c \<le> 122) \<or> (48 \<le> unat c \<and> unat c \<le> 57)
     \<or> unat c = 43 \<or> unat c = 47 \<or> unat c = 61"
  by (auto simp: isBase64Char_def word_le_nat_alt)

lemma base64_plain: 
  assumes "isBase64Char c" 
  shows "c \<noteq> 0x08" "c \<noteq> 0x09" "c \<noteq> 0x0A" "c \<noteq> 0x0C" "c \<noteq> 0x0D" "c \<noteq> 0x22" "c \<noteq> 0x5C" "\<not> c < 0x20"
     "\<not> (0xD800 \<le> c \<and> c \<le> 0xDBFF)" "\<not> (0xDC00 \<le> c \<and> c \<le> 0xDFFF)"
  using base64_unat [OF assms] by (auto simp: word_le_nat_alt word_less_nat_alt)


lemma demoEncode_nonempty: "bs \<noteq> [] \<Longrightarrow> demoEncode bs \<noteq> []"
  by (cases bs) (simp_all add: demoEncode_def)

lemma base64Sound_demo: "base64Sound demo"
  by (simp add: base64Sound_def demo_def demoBufferFrom_def demoDecode_demoEncode
      base64Text_def demoEncode_base64 demoEncode_nonempty)

lemma shift_back: "map (\<lambda>b. b - k) (map (\<lambda>b. b + k) bs) = (bs :: byte list)"
  by (induction bs) simp_all

lemma cipherSound_demo: "cipherSound demo"
  by (auto simp: cipherSound_def demo_def demoEncrypt_def demoDecrypt_def Let_def comp_def)

lemma randomSound_demo: "randomSound demo"
  by (auto simp: randomSound_def demo_def demoRandom_def split: if_splits)

lemma quoteChars_base64: "base64Text s \<Longrightarrow> quoteChars s = s"
proof (induction s)
  case Nil
  show ?case by simp
next
  case (Cons c s)
  then have c: "isBase64Char c" and s: "quoteChars s = s" by (simp_all add: base64Text_def)
  from base64_plain [OF c] s show ?case
    by (auto simp: isHighSurrogate_def isLowSurrogate_def)
qed

lemma demoTakeString_base64:
  "base64Text s \<Longrightarrow> demoTakeString (s @ DQUOTE # rest) = Some (s, rest)"
proof (induction s)
  case Nil
  show ?case by simp
next
  case (Cons c s)
  then have c: "isBase64Char c" and s: "demoTakeString (s @ DQUOTE # rest) = Some (s, rest)"
    by (simp_all add: base64Text_def)
  from base64_plain [OF c] s show ?case by simp
qed

lemma demoMember_base64:
  "base64Text k \<Longrightarrow> base64Text v \<Longrightarrow>
   demoMember (DQUOTE # k @ DQUOTE # COLON # DQUOTE # v @ DQUOTE # rest) = Some ((k, JString v), rest)"
  by (simp add: demoMember_def demoTakeString_base64)

lemma base64Text_names:
  "base64Text (js ''salt'')" "base64Text (js ''iv'')" "base64Text (js ''cipherText'')"
  by (simp_all add: base64Text_def js_def isBase64Char_def)

lemma jsonSound_demo: "jsonSound demo"
  unfolding jsonSound_def
proof (intro allI impI)
  fix p :: encryptionParameters
  assume p: "base64Text (salt p) \<and> base64Text (iv p) \<and> base64Text (cipherText p)"
  have shape: "JSON_stringify (Encrypted p) =
      LBRACE # DQUOTE # js ''salt'' @ DQUOTE # COLON # DQUOTE # salt p @ DQUOTE # COMMA #
      DQUOTE # js ''iv'' @ DQUOTE # COLON # DQUOTE # iv p @ DQUOTE # COMMA #
      DQUOTE # js ''cipherText'' @ DQUOTE # COLON # DQUOTE # cipherText p @ [DQUOTE, RBRACE]"
    using p by (simp add: JSON_stringify_def quoteJSONString_def quoteChars_base64 base64Text_names)
  show "jsonParse demo (JSON_stringify (Encrypted p)) = Inr (paramsJSON p)"
    unfolding shape using p
    by (simp add: demo_def demoJsonParse_def demoMember_base64 base64Text_names paramsJSON_def)
qed

text \<open>
  Claim C1 as stated fails for a plaintext that is an unpaired surrogate: \<open>TextEncoder\<close>
  encodes it as U+FFFD, and that is what decryption returns.
\<close>

theorem C1_counterexample:
  "fst (encrypt demo [0xD800] (js ''k1'') (worldWith []))
     = Inr \<lparr>salt = js ''01'', iv = js ''02'', cipherText = js ''0a8c5c5a''\<rparr>
   \<and> fst (decrypt demo
           (JSON_stringify (Encrypted \<lparr>salt = js ''01'', iv = js ''02'', cipherText = js ''0a8c5c5a''\<rparr>))
           (js ''k1'') (worldWith [])) = Inr [0xFFFD]
   \<and> [0xFFFD] \<noteq> [0xD800 :: jschar]"
  by (simp add: eval)

text \<open>
  Claim C1, amended, on the plaintext \<open>s3\<close> and the secret \<open>k1\<close>: the reference instance
  meets the assumptions, encryption succeeds, and decryption returns \<open>s3\<close>.
\<close>

theorem C1_round_trip_witness:
  "base64Sound demo \<and> cipherSound demo \<and> randomSound demo \<and> jsonSound demo
   \<and> fst (encrypt demo (js ''s3'') (js ''k1'') (worldWith []))
       = Inr \<lparr>salt = js ''01'', iv = js ''02'', cipherText = js ''4510d0''\<rparr>
   \<and> textDecode (textEncode (js ''s3'')) = js ''s3''
   \<and> fst (decrypt demo
           (JSON_stringify (Encrypted \<lparr>salt = js ''01'', iv = js ''02'', cipherText = js ''4510d0''\<rparr>))
           (js ''k1'') (worldWith [])) = Inr (js ''s3'')"
proof -
  have h5: "fst (encrypt demo (js ''s3'') (js ''k1'') (worldWith []))
       = Inr \<lparr>salt = js ''01'', iv = js ''02'', cipherText = js ''4510d0''\<rparr>"
    by (simp add: eval)
  have h6: "textDecode (textEncode (js ''s3'')) = js ''s3''"
    by (simp add: eval)
  from C1_round_trip [OF base64Sound_demo cipherSound_demo randomSound_demo jsonSound_demo h5 h6,
      of "worldWith []"]
    base64Sound_demo cipherSound_demo randomSound_demo jsonSound_demo h5 h6
  show ?thesis by blast
qed

section \<open>Trimming, splitting and joining\<close>


lemma trim_empty_iff: "trim s = [] \<longleftrightarrow> (\<forall>c \<in> set s. isWhiteSpace c)"
proof -
  have "trim s = [] \<longleftrightarrow> (\<forall>c \<in> set (dropWhile isWhiteSpace s). isWhiteSpace c)"
    by (simp add: trim_def dropWhile_eq_Nil_conv)
  also have "\<dots> \<longleftrightarrow> dropWhile isWhiteSpace s = []"
    by (metis dropWhile_eq_Nil_conv hd_dropWhile list.set_sel(1) empty_iff empty_set)
  also have "\<dots> \<longleftrightarrow> (\<forall>c \<in> set s. isWhiteSpace c)"
    by (simp add: dropWhile_eq_Nil_conv)
  finally show ?thesis .
qed


lemma trim_prefix:
  assumes "a \<noteq> []" and "\<not> isWhiteSpace (hd a)" and "\<not> isWhiteSpace (last a)"
  shows "trim (a @ b) = a @ rev (dropWhile isWhiteSpace (rev b))"
proof -
  from assms(1,2) have front: "dropWhile isWhiteSpace (a @ b) = a @ b"
    by (cases a) simp_all
  from assms(1,3) have rear: "dropWhile isWhiteSpace (rev a) = rev a"
    by (cases "rev a") (simp_all add: last_rev [symmetric] hd_rev)
  have "dropWhile isWhiteSpace (rev b @ rev a) = dropWhile isWhiteSpace (rev b) @ rev a"
  proof (cases "\<forall>x \<in> set (rev b). isWhiteSpace x")
    case True
    then show ?thesis using rear by (simp add: dropWhile_append dropWhile_eq_Nil_conv)
  next
    case False
    then show ?thesis by (auto simp: dropWhile_append)
  qed
  with front show ?thesis by (simp add: trim_def)
qed

lemma trim_id:
  assumes "s \<noteq> []" and "\<not> isWhiteSpace (hd s)" and "\<not> isWhiteSpace (last s)"
  shows "trim s = s"
  using trim_prefix [OF assms, of "[]"] by simp

lemma trim_hd: "trim s \<noteq> [] \<Longrightarrow> \<not> isWhiteSpace (hd (trim s))"
proof -
  assume ne: "trim s \<noteq> []"
  let ?u = "dropWhile isWhiteSpace s"
  have u: "?u \<noteq> []"
  proof
    assume "?u = []"
    then have "trim s = []" by (simp add: trim_empty_iff)
    with ne show False by simp
  qed
  have split: "?u = trim s @ rev (takeWhile isWhiteSpace (rev ?u))"
    by (metis trim_def rev_append rev_rev_ident takeWhile_dropWhile_id)
  with ne have "hd ?u = hd (trim s)" by (metis hd_append2)
  moreover have "\<not> isWhiteSpace (hd ?u)" using u by (rule hd_dropWhile)
  ultimately show ?thesis by simp
qed

lemma trim_last: "trim s \<noteq> [] \<Longrightarrow> \<not> isWhiteSpace (last (trim s))"
proof -
  assume ne: "trim s \<noteq> []"
  let ?r = "dropWhile isWhiteSpace (rev (dropWhile isWhiteSpace s))"
  from ne have r: "?r \<noteq> []" by (simp add: trim_def)
  then have "\<not> isWhiteSpace (hd ?r)" by (rule hd_dropWhile)
  moreover have "last (trim s) = hd ?r" using r by (simp add: trim_def last_rev)
  ultimately show ?thesis by simp
qed



lemma split_nonempty: "split c s \<noteq> []"
  by (induction s) (auto split: list.splits)

lemma split_append_sep: "c \<notin> set k \<Longrightarrow> split c (k @ c # v) = k # split c v"
  by (induction k) (auto split: list.splits)


lemma join_split: "join c (split c s) = s"
proof (induction s)
  case Nil
  show ?case by simp
next
  case (Cons x s)
  obtain p ps where ps: "split c s = p # ps" using split_nonempty [of c s] by (cases "split c s") auto
  with Cons show ?case by (cases ps) auto
qed



section \<open>What a line parses to\<close>

lemma startsWith_append: "startsWith s p \<longleftrightarrow> (\<exists>r. s = p @ r)"
proof
  assume "startsWith s p"
  then have "s = p @ drop (length p) s"
    by (metis startsWith_def append_take_drop_id)
  then show "\<exists>r. s = p @ r" ..
next
  assume "\<exists>r. s = p @ r"
  then show "startsWith s p" by (auto simp: startsWith_def)
qed

lemma not_whitespace_EQUALS: "\<not> isWhiteSpace EQUALS"
  by (simp add: isWhiteSpace_def)


lemma plainKey_ends:
  assumes "plainKey k"
  shows "k \<noteq> []" and "\<not> isWhiteSpace (hd k)" and "\<not> isWhiteSpace (last k)" and "EQUALS \<notin> set k"
proof -
  from assms show ne: "k \<noteq> []" and "EQUALS \<notin> set k" by (simp_all add: plainKey_def)
  from assms ne have "trim k \<noteq> []" by (simp add: plainKey_def)
  from trim_hd [OF this] trim_last [OF this] assms
  show "\<not> isWhiteSpace (hd k)" and "\<not> isWhiteSpace (last k)" by (simp_all add: plainKey_def)
qed

text \<open>A line that begins with \<open>KEY=\<close> is an entry of that key or no entry at all.\<close>

lemma parseEnvironmentLine_prefixed:
  assumes "plainKey k"
  shows "parseEnvironmentLine (k @ EQUALS # r) =
           (if rev (dropWhile isWhiteSpace (rev r)) = [] then None
            else Some (k, trim (rev (dropWhile isWhiteSpace (rev r)))))"
proof -
  let ?r = "rev (dropWhile isWhiteSpace (rev r))"
  note k = plainKey_ends [OF assms]
  have "trim ((k @ [EQUALS]) @ r) = (k @ [EQUALS]) @ ?r"
    using k(1,2) by (intro trim_prefix) (simp_all add: not_whitespace_EQUALS)
  then have t: "trim (k @ EQUALS # r) = k @ EQUALS # ?r" by simp
  have parts: "split EQUALS (k @ EQUALS # ?r) = k # split EQUALS ?r"
    using k(4) by (rule split_append_sep)
  from assms have "trim k = k" by (simp add: plainKey_def)
  then show ?thesis
    using k(1) by (simp add: parseEnvironmentLine_def t parts join_split includesChar_def)
qed

lemma parseEnvironmentLine_written:
  assumes "plainKey k" and "j \<noteq> []" and "\<not> isWhiteSpace (hd j)" and "\<not> isWhiteSpace (last j)"
  shows "parseEnvironmentLine (k @ [EQUALS] @ j) = Some (k, j)"
proof -
  from assms(2,4) have "dropWhile isWhiteSpace (rev j) = rev j"
    by (cases "rev j") (simp_all add: last_rev [symmetric] hd_rev)
  then have "rev (dropWhile isWhiteSpace (rev j)) = j" by simp
  with parseEnvironmentLine_prefixed [OF assms(1), of j] assms(2-4) show ?thesis
    by (simp add: trim_id)
qed

lemma parseEnvironmentLine_key:
  assumes "plainKey k" and "startsWith l (k @ [EQUALS])" and "parseEnvironmentLine l = Some (k', v)"
  shows "k' = k"
proof -
  from assms(2) obtain r where "l = k @ EQUALS # r" by (auto simp: startsWith_append)
  with parseEnvironmentLine_prefixed [OF assms(1), of r] assms(3) show ?thesis
    by (simp split: if_splits)
qed



section \<open>The shape of serialized values\<close>







lemma not_whitespace_marks: "\<not> isWhiteSpace LBRACE" "\<not> isWhiteSpace RBRACE" "\<not> isWhiteSpace DQUOTE"
  by (simp_all add: isWhiteSpace_def)

lemma JSON_stringify_ends:
  "\<not> isWhiteSpace (hd (JSON_stringify x))" "\<not> isWhiteSpace (last (JSON_stringify x))"
  by (cases x; simp add: JSON_stringify_def quoteJSONString_def not_whitespace_marks)+

lemma endsWith_single: "endsWith s [c] \<longleftrightarrow> s \<noteq> [] \<and> last s = c"
  by (cases s rule: rev_cases) (simp_all add: endsWith_def)

lemma JSON_stringify_braces:
  "startsWith (JSON_stringify (Encrypted p)) [LBRACE]" "endsWith (JSON_stringify (Encrypted p)) [RBRACE]"
  by (simp_all add: JSON_stringify_def startsWith_def endsWith_single)

section \<open>Entries before and after an update\<close>

lemma JSON_stringify_trimmed: "trim (JSON_stringify x) = JSON_stringify x"
  by (intro trim_id JSON_stringify_ends JSON_stringify_nonempty)

lemma parseEnvironmentLine_serialized:
  "plainKey k \<Longrightarrow> parseEnvironmentLine (k @ [EQUALS] @ JSON_stringify x) = Some (k, JSON_stringify x)"
  by (intro parseEnvironmentLine_written JSON_stringify_ends JSON_stringify_nonempty)

lemma entryValues_append: "entryValues k (xs @ ys) = entryValues k xs @ entryValues k ys"
  by (induction xs) (auto split: option.splits)

lemma set_entryValues:
  "set (entryValues k ls) = {v. \<exists>l \<in> set ls. parseEnvironmentLine l = Some (k, v)}"
  by (induction ls) (auto split: option.splits)

lemma set_updateEnvironmentLines:
  assumes "l \<in> set (updateEnvironmentLines ls k j)"
  shows "(l \<in> set ls \<and> \<not> startsWith l (k @ [EQUALS])) \<or> l = k @ [EQUALS] @ j"
  using assms by (auto simp: updateEnvironmentLines_def Let_def split: if_splits)

lemma updateEnvironmentLines_has: "k @ [EQUALS] @ j \<in> set (updateEnvironmentLines ls k j)"
  by (auto simp: updateEnvironmentLines_def Let_def)

lemma entryValues_replaced:
  assumes "plainKey k" and "parseEnvironmentLine (k @ [EQUALS] @ j) = Some (k, j)" and "k' \<noteq> k"
  shows "entryValues k'
           (map (\<lambda>line. if startsWith line (k @ [EQUALS]) then k @ [EQUALS] @ j else line) ls)
         = entryValues k' ls"
proof (induction ls)
  case Nil
  show ?case by simp
next
  case (Cons l ls)
  show ?case
  proof (cases "startsWith l (k @ [EQUALS])")
    case True
    have "parseEnvironmentLine l = Some (k'', v) \<Longrightarrow> k'' = k" for k'' v
      using parseEnvironmentLine_key [OF assms(1) True] .
    with assms(3) have "entryValues k' (l # ls) = entryValues k' ls"
      by (auto split: option.splits)
    with True assms(2,3) Cons show ?thesis by simp
  next
    case False
    with Cons show ?thesis by (simp split: option.splits)
  qed
qed

lemma entryValues_other:
  assumes "plainKey k" and "parseEnvironmentLine (k @ [EQUALS] @ j) = Some (k, j)" and "k' \<noteq> k"
  shows "entryValues k' (updateEnvironmentLines ls k j) = entryValues k' ls"
  using assms(2,3)
  by (simp add: updateEnvironmentLines_def Let_def entryValues_append
      entryValues_replaced [OF assms])

lemma keysAtLineStart_update:
  assumes "keysAtLineStart ls" and "parseEnvironmentLine (k @ [EQUALS] @ j) = Some (k, j)"
  shows "keysAtLineStart (updateEnvironmentLines ls k j)"
  unfolding keysAtLineStart_def
proof (intro ballI allI impI)
  fix l k' v
  assume l: "l \<in> set (updateEnvironmentLines ls k j)" and p: "parseEnvironmentLine l = Some (k', v)"
  from set_updateEnvironmentLines [OF l] show "startsWith l (k' @ [EQUALS])"
  proof
    assume "l \<in> set ls \<and> \<not> startsWith l (k @ [EQUALS])"
    with assms(1) p show ?thesis unfolding keysAtLineStart_def by blast
  next
    assume "l = k @ [EQUALS] @ j"
    with p assms(2) have "k' = k" by simp
    with \<open>l = k @ [EQUALS] @ j\<close> show ?thesis by (simp add: startsWith_def)
  qed
qed

lemma entryValues_own:
  assumes "keysAtLineStart ls" and "parseEnvironmentLine (k @ [EQUALS] @ j) = Some (k, j)"
  shows "set (entryValues k (updateEnvironmentLines ls k j)) = {j}"
proof -
  let ?U = "updateEnvironmentLines ls k j"
  have "v = j" if "l \<in> set ?U" and "parseEnvironmentLine l = Some (k, v)" for l v
  proof -
    from keysAtLineStart_update [OF assms] that have "startsWith l (k @ [EQUALS])"
      unfolding keysAtLineStart_def by blast
    with set_updateEnvironmentLines [OF that(1)] have "l = k @ [EQUALS] @ j" by blast
    with that(2) assms(2) show ?thesis by simp
  qed
  moreover have "\<exists>l \<in> set ?U. parseEnvironmentLine l = Some (k, j)"
    using updateEnvironmentLines_has assms(2) by blast
  ultimately show ?thesis unfolding set_entryValues by blast
qed

text \<open>
  The updates of a run: distinct keys as \<open>parseEnvironmentLine\<close> returns them, each with a
  serialized value.
\<close>

lemma keysAtLineStart_applyUpdates:
  assumes "keysAtLineStart ls"
    and "\<forall>(k, j) \<in> set ups. parseEnvironmentLine (k @ [EQUALS] @ j) = Some (k, j)"
  shows "keysAtLineStart (applyUpdates ls ups)"
  using assms
proof (induction ups arbitrary: ls)
  case Nil
  then show ?case by (simp add: applyUpdates_def)
next
  case (Cons a ups)
  obtain k j where a: "a = (k, j)" by (cases a)
  from Cons.prems(2) have p: "parseEnvironmentLine (k @ [EQUALS] @ j) = Some (k, j)"
    and rest: "\<forall>(k, j) \<in> set ups. parseEnvironmentLine (k @ [EQUALS] @ j) = Some (k, j)"
    by (simp_all add: a)
  from keysAtLineStart_update [OF Cons.prems(1) p] rest show ?case
    unfolding a applyUpdates_Cons by (rule Cons.IH)
qed

lemma entryValues_applyUpdates_other:
  assumes "\<forall>(k, j) \<in> set ups. plainKey k \<and> parseEnvironmentLine (k @ [EQUALS] @ j) = Some (k, j)"
    and "k' \<notin> fst ` set ups"
  shows "entryValues k' (applyUpdates ls ups) = entryValues k' ls"
  using assms
proof (induction ups arbitrary: ls)
  case Nil
  then show ?case by (simp add: applyUpdates_def)
next
  case (Cons a ups)
  obtain k j where a: "a = (k, j)" by (cases a)
  from Cons.prems have k: "plainKey k" "parseEnvironmentLine (k @ [EQUALS] @ j) = Some (k, j)" "k' \<noteq> k"
    and rest: "\<forall>(k, j) \<in> set ups. plainKey k \<and> parseEnvironmentLine (k @ [EQUALS] @ j) = Some (k, j)"
      "k' \<notin> fst ` set ups"
    by (auto simp: a)
  show ?case
    unfolding a applyUpdates_Cons by (simp add: Cons.IH [OF rest] entryValues_other [OF k])
qed

lemma entryValues_applyUpdates_own:
  assumes "keysAtLineStart ls"
    and "\<forall>(k, j) \<in> set ups. plainKey k \<and> parseEnvironmentLine (k @ [EQUALS] @ j) = Some (k, j)"
    and "distinct (map fst ups)" and "(k, j) \<in> set ups"
  shows "set (entryValues k (applyUpdates ls ups)) = {j}"
  using assms
proof (induction ups arbitrary: ls)
  case Nil
  then show ?case by simp
next
  case (Cons a ups)
  obtain k1 j1 where a: "a = (k1, j1)" by (cases a)
  from Cons.prems(2) have k1: "plainKey k1" "parseEnvironmentLine (k1 @ [EQUALS] @ j1) = Some (k1, j1)"
    and rest: "\<forall>(k, j) \<in> set ups. plainKey k \<and> parseEnvironmentLine (k @ [EQUALS] @ j) = Some (k, j)"
    by (simp_all add: a)
  from Cons.prems(3) have d: "k1 \<notin> fst ` set ups" "distinct (map fst ups)" by (simp_all add: a)
  let ?U = "updateEnvironmentLines ls k1 j1"
  have U: "keysAtLineStart ?U" by (rule keysAtLineStart_update [OF Cons.prems(1) k1(2)])
  show ?case
  proof (cases "(k, j) \<in> set ups")
    case True
    from Cons.IH [OF U rest d(2) True] show ?thesis by (simp add: a applyUpdates_Cons)
  next
    case False
    with Cons.prems(4) have same: "k1 = k" "j1 = j" by (simp_all add: a)
    from d(1) have "entryValues k (applyUpdates ?U ups) = entryValues k ?U"
      unfolding same by (rule entryValues_applyUpdates_other [OF rest])
    then show ?thesis
      using entryValues_own [OF Cons.prems(1) k1(2)] by (simp add: a applyUpdates_Cons same)
  qed
qed




section \<open>The record extracted from the lines\<close>






section \<open>The variables chosen for encryption\<close>

lemma set_setProperty: "set (setProperty r k v) \<subseteq> insert (k, v) (set r)"
  by (auto simp: setProperty_def set_insertProperty split: if_splits)

lemma objectAssign_single: "objectAssign acc (setProperty [] k v) = setProperty acc k v"
  by (simp add: objectAssign_def setProperty_def)



lemma findEnvironmentVariable_key:
  assumes "map_of E x = Some v" and "truthy v"
  shows "findEnvironmentVariable E x w = (Inr (setProperty [] x v), w)"
  using assms by (simp add: findEnvironmentVariable_def getProperty_def ok_def)



text \<open>With lookups that are all keys of entries, the variables chosen are those entries.\<close>

lemma determine_loop_keys:
  assumes "wellFormed E" and "\<forall>x \<in> set lookups. x \<in> fst ` set E"
    and "\<forall>(k, v) \<in> set E. truthy v"
    and "set acc \<subseteq> set E"
  shows "\<exists>T w'. forEach (\<lambda>lookupValue variablesToEncrypt.
                   andThen (findEnvironmentVariable E lookupValue) (\<lambda>found.
                   andThen (if \<not> objectTruthy found then logger (WarnLookupNotFound lookupValue)
                            else ok ()) (\<lambda>_.
                   ok (objectAssign variablesToEncrypt found)))) lookups acc w = (Inr T, w')
           \<and> set T \<subseteq> set E \<and> fst ` set T = fst ` set acc \<union> set lookups"
  using assms(2,4)
proof (induction lookups arbitrary: acc w)
  case Nil
  then show ?case by simp
next
  case (Cons x lookups)
  from Cons.prems(1) obtain v where xv: "(x, v) \<in> set E" by auto
  from assms(1) have d: "distinct (map fst E)" and noProto: "js ''__proto__'' \<notin> fst ` set E"
    by (simp_all add: wellFormed_def)
  from d xv have m: "map_of E x = Some v" by simp
  from assms(3) xv have t: "truthy v" by blast
  from xv noProto have x: "x \<noteq> js ''__proto__''" by force
  let ?acc = "setProperty acc x v"
  have sub: "set ?acc \<subseteq> set E"
    using set_setProperty [of acc x v] xv Cons.prems(2) by blast
  have keys: "fst ` set ?acc = insert x (fst ` set acc)"
    using x by (simp add: setProperty_keys)
  from Cons.prems(1) have rest: "\<forall>x \<in> set lookups. x \<in> fst ` set E" by simp
  let ?step = "\<lambda>lookupValue variablesToEncrypt.
                   andThen (findEnvironmentVariable E lookupValue) (\<lambda>found.
                   andThen (if \<not> objectTruthy found then logger (WarnLookupNotFound lookupValue)
                            else ok ()) (\<lambda>_.
                   ok (objectAssign variablesToEncrypt found)))"
  have step: "?step x acc w = (Inr ?acc, w)"
    by (simp add: findEnvironmentVariable_key [OF m t] andThen_def ok_def objectTruthy_def
        objectAssign_single)
  have unfold: "forEach ?step (x # lookups) acc w = forEach ?step lookups ?acc w"
    by (simp only: forEach.simps step prod.case sum.case)
  from Cons.IH [OF rest sub, of w] keys show ?case
    unfolding unfold by auto
qed

lemma determineVariablesToEncrypt_keys:
  assumes "wellFormed E" and "\<forall>x \<in> set lookups. x \<in> fst ` set E"
    and "\<forall>(k, v) \<in> set E. truthy v" and "lookups \<noteq> []"
  shows "\<exists>T w'. determineVariablesToEncrypt E (Some lookups) w = (Inr T, w')
           \<and> set T \<subseteq> set E \<and> fst ` set T = set lookups"
  using determine_loop_keys [OF assms(1-3), of "[]" w] assms(4)
  by (simp add: determineVariablesToEncrypt_def)

section \<open>The updates of a successful rewrite\<close>



section \<open>An entry whose line is indented\<close>




end
